theory Spec2Isabelle
  imports Main
begin

section \<open>Strings\<close>

text \<open>
  Go strings are byte sequences; \<open>string\<close> (a list of 8-bit characters) models them, so
  \<open>length\<close> is Go's \<open>len\<close> and \<open>take n\<close> is the slice \<open>s[:n]\<close> for \<open>n \<le> len(s)\<close>.
\<close>

definition dq :: string where
  "dq = [CHR 0x22]"

text \<open>
  A string holds text as UTF-8. \<open>utf8.DecodeRuneInString\<close> gives the rune at the head of a
  string and its width in bytes: a byte below \<open>0x80\<close> is itself; a lead byte \<open>0xC2..0xF4\<close>
  followed by the continuation bytes its range asks for (the second byte narrower after
  \<open>0xE0\<close>, \<open>0xED\<close>, \<open>0xF0\<close> and \<open>0xF4\<close>, so that over-long forms, surrogates and runes above
  \<open>U+10FFFF\<close> are refused) is the rune they spell; anything else is \<open>RuneError\<close> of width 1
  (width 0 on the empty string).
\<close>

definition RuneError :: nat where
  "RuneError = 0xFFFD"

definition between :: "nat \<Rightarrow> char \<Rightarrow> nat \<Rightarrow> bool" where
  "between lo c hi = (lo \<le> of_char c \<and> of_char c \<le> hi)"

fun DecodeRune :: "string \<Rightarrow> nat \<times> nat" where
  "DecodeRune [] = (RuneError, 0)"
| "DecodeRune (c0 # s) =
     (let b0 = of_char c0 :: nat in
      if b0 < 0x80 then (b0, 1)
      else if 0xC2 \<le> b0 \<and> b0 \<le> 0xDF then
        (case s of
           c1 # t \<Rightarrow>
             if between 0x80 c1 0xBF
             then ((b0 mod 0x20) * 0x40 + of_char c1 mod 0x40, 2)
             else (RuneError, 1)
         | _ \<Rightarrow> (RuneError, 1))
      else if 0xE0 \<le> b0 \<and> b0 \<le> 0xEF then
        (case s of
           c1 # c2 # t \<Rightarrow>
             if between (if b0 = 0xE0 then 0xA0 else 0x80) c1 (if b0 = 0xED then 0x9F else 0xBF)
                \<and> between 0x80 c2 0xBF
             then ((b0 mod 0x10) * 0x1000 + (of_char c1 mod 0x40) * 0x40 + of_char c2 mod 0x40, 3)
             else (RuneError, 1)
         | _ \<Rightarrow> (RuneError, 1))
      else if 0xF0 \<le> b0 \<and> b0 \<le> 0xF4 then
        (case s of
           c1 # c2 # c3 # t \<Rightarrow>
             if between (if b0 = 0xF0 then 0x90 else 0x80) c1 (if b0 = 0xF4 then 0x8F else 0xBF)
                \<and> between 0x80 c2 0xBF \<and> between 0x80 c3 0xBF
             then ((b0 mod 0x08) * 0x40000 + (of_char c1 mod 0x40) * 0x1000
                   + (of_char c2 mod 0x40) * 0x40 + of_char c3 mod 0x40, 4)
             else (RuneError, 1)
         | _ \<Rightarrow> (RuneError, 1))
      else (RuneError, 1))"

text \<open>
  \<open>for _, c := range s\<close>: the runes of a string from left to right, each step moving on by
  the width of the rune it decoded (\<open>runesFrom k\<close> first passes over \<open>k\<close> bytes). The number
  of runes, \<open>utf8.RuneCountInString\<close>, is the number of characters of the text.
\<close>

fun runesFrom :: "nat \<Rightarrow> string \<Rightarrow> nat list" where
  "runesFrom k [] = []"
| "runesFrom 0 (c # s) = fst (DecodeRune (c # s)) # runesFrom (snd (DecodeRune (c # s)) - 1) s"
| "runesFrom (Suc k) (c # s) = runesFrom k s"

definition runes :: "string \<Rightarrow> nat list" where
  "runes s = runesFrom 0 s"

text \<open>
  \<open>utf8.AppendRune\<close>: the UTF-8 bytes of a rune; a surrogate or a rune above \<open>U+10FFFF\<close> is
  written as \<open>RuneError\<close>, the bytes \<open>EF BF BD\<close>.
\<close>

definition EncodeRune :: "nat \<Rightarrow> string" where
  "EncodeRune r =
     (if r < 0x80 then [char_of r]
      else if r < 0x800 then [char_of (0xC0 + r div 0x40), char_of (0x80 + r mod 0x40)]
      else if (0xD800 \<le> r \<and> r \<le> 0xDFFF) \<or> 0x10FFFF < r then [CHR 0xEF, CHR 0xBF, CHR 0xBD]
      else if r < 0x10000
        then [char_of (0xE0 + r div 0x1000), char_of (0x80 + (r div 0x40) mod 0x40),
              char_of (0x80 + r mod 0x40)]
      else [char_of (0xF0 + r div 0x40000), char_of (0x80 + (r div 0x1000) mod 0x40),
            char_of (0x80 + (r div 0x40) mod 0x40), char_of (0x80 + r mod 0x40)])"

text \<open>
  \<open>strings.Map(mapping, s)\<close>: every rune of \<open>s\<close> is replaced by its image, written in UTF-8;
  a byte that is not part of a well-formed rune comes out as \<open>RuneError\<close>.
\<close>

definition Map :: "(nat \<Rightarrow> nat) \<Rightarrow> string \<Rightarrow> string" where
  "Map mapping s = concat (map (\<lambda>c. EncodeRune (mapping c)) (runes s))"

text \<open>
  \<open>unicode.ToLower\<close>. Its table sends three kinds of rune into ASCII: the letters \<open>A\<close> to
  \<open>Z\<close>, \<open>U+0130\<close> (capital I with a dot above, to \<open>i\<close>) and \<open>U+212A\<close> (the Kelvin sign, to
  \<open>k\<close>); those entries are here. Every other entry sends a rune outside ASCII to a rune
  outside ASCII, and those runes are left as they are: the code only searches the
  lower-cased text for ASCII words, and such a search cannot tell one rune outside ASCII
  from another (lemma \<open>Contains_Map_table\<close> below).
\<close>

definition unicodeToLower :: "nat \<Rightarrow> nat" where
  "unicodeToLower r =
     (if 0x41 \<le> r \<and> r \<le> 0x5A then r + 0x20
      else if r = 0x130 then 0x69
      else if r = 0x212A then 0x6B
      else r)"

definition isASCII :: "char \<Rightarrow> bool" where
  "isASCII c = (of_char c < (0x80 :: nat))"

definition toLowerByte :: "char \<Rightarrow> char" where
  "toLowerByte c =
     (case map_of (zip ''ABCDEFGHIJKLMNOPQRSTUVWXYZ'' ''abcdefghijklmnopqrstuvwxyz'') c of
        None \<Rightarrow> c
      | Some l \<Rightarrow> l)"

text \<open>
  \<open>strings.ToLower\<close>: a string of ASCII bytes alone has its upper-case letters moved to
  lower case byte by byte; any other string goes through \<open>Map(unicode.ToLower, s)\<close>.
\<close>

definition ToLower :: "string \<Rightarrow> string" where
  "ToLower s = (if list_all isASCII s then map toLowerByte s else Map unicodeToLower s)"

fun HasPrefix :: "string \<Rightarrow> string \<Rightarrow> bool" where
  "HasPrefix s [] = True"
| "HasPrefix [] (c # p) = False"
| "HasPrefix (d # s) (c # p) = (d = c \<and> HasPrefix s p)"

text \<open>\<open>strings.Contains(s, substr)\<close>: \<open>substr\<close> occurs in \<open>s\<close> as a contiguous block.\<close>

fun Contains :: "string \<Rightarrow> string \<Rightarrow> bool" where
  "Contains [] substr = (substr = [])"
| "Contains (c # s) substr = (HasPrefix (c # s) substr \<or> Contains s substr)"


section \<open>sandbox.go: configuration, profile compiler, denial classifier\<close>

record SandboxConfig =
  Enabled :: bool
  AllowNetwork :: bool
  ReadPaths :: "string list"
  WritePaths :: "string list"
  ExecPaths :: "string list"
  FallbackOutsideSandbox :: bool

text \<open>
  What \<open>DefaultSandboxConfig\<close> and \<open>NewShellExecutor\<close> read from the host: whether
  \<open>sandbox-exec\<close> is there on darwin (\<open>sandboxAvailable()\<close>), \<open>os.Getwd()\<close> and
  \<open>os.TempDir()\<close>.
\<close>

record Host =
  sandboxAvailable :: bool
  Getwd :: string
  TempDir :: string

definition DefaultSandboxConfig :: "Host \<Rightarrow> SandboxConfig" where
  "DefaultSandboxConfig h =
     \<lparr> Enabled = sandboxAvailable h,
       AllowNetwork = False,
       ReadPaths = [''/''],
       WritePaths = [Getwd h, TempDir h, ''/private/tmp'', ''/private/var/folders''],
       ExecPaths = [''/bin'', ''/usr/bin'', ''/usr/local/bin'', ''/opt/homebrew/bin'',
                    ''/usr/sbin'', ''/sbin''],
       FallbackOutsideSandbox = True \<rparr>"

text \<open>\<open>strings.Builder\<close>: \<open>WriteString\<close> appends to what was written so far.\<close>

definition WriteString :: "string \<Rightarrow> string \<Rightarrow> string" where
  "WriteString sb s = sb @ s"

text \<open>The three \<open>fmt.Sprintf\<close> formats of \<open>generateProfile\<close>; \<open>%s\<close> inserts the path as it is.\<close>

definition fmtRead :: "string \<Rightarrow> string" where
  "fmtRead path = ''(allow file-read* (subpath '' @ dq @ path @ dq @ ''))\<newline>''"

definition fmtWrite :: "string \<Rightarrow> string" where
  "fmtWrite path = ''(allow file-write* (subpath '' @ dq @ path @ dq @ ''))\<newline>''"

definition fmtExec :: "string \<Rightarrow> string" where
  "fmtExec path = ''(allow process-exec (subpath '' @ dq @ path @ dq @ ''))\<newline>''"

definition generateProfile :: "SandboxConfig \<Rightarrow> string" where
  "generateProfile config =
     (let sb = [];
          sb = WriteString sb ''(version 1)\<newline>'';
          sb = WriteString sb ''(deny default)\<newline>'';
          sb = WriteString sb ''(allow process-fork)\<newline>'';
          sb = WriteString sb ''(allow process-exec)\<newline>'';
          sb = foldl (\<lambda>sb path. WriteString sb (fmtRead path)) sb (ReadPaths config);
          sb = foldl (\<lambda>sb path. WriteString sb (fmtWrite path)) sb (WritePaths config);
          sb = foldl (\<lambda>sb path. WriteString sb (fmtExec path)) sb (ExecPaths config);
          sb = WriteString sb ''(allow file-read-metadata)\<newline>'';
          sb = WriteString sb ''(allow sysctl-read)\<newline>'';
          sb = WriteString sb ''(allow mach-lookup)\<newline>'';
          sb = WriteString sb ''(allow signal)\<newline>'';
          sb = WriteString sb ''(allow iokit-open)\<newline>'';
          sb = WriteString sb (''(allow file-read* file-write* (regex #'' @ dq @ ''^/dev/'' @ dq @ ''))\<newline>'');
          sb = WriteString sb (''(allow file-ioctl (regex #'' @ dq @ ''^/dev/'' @ dq @ ''))\<newline>'');
          sb = (if AllowNetwork config
                then WriteString sb ''(allow network*)\<newline>''
                else WriteString sb ''(deny network*)\<newline>'')
      in sb)"

text \<open>
  Modelled from the spec: the sentinel errors \<open>ErrMaxTurnsExceeded\<close> and \<open>ErrEmptyResponse\<close>,
  which \<open>agent.go\<close> returns, are not declared among the sources; they are the
  specification's MaxTurnsExceeded and EmptyResponse. The other constructors are Go's
  \<open>error\<close> values that the modelled code makes or tells apart: \<open>ExitError c\<close> is an
  \<open>*exec.ExitError\<close> whose \<open>ExitCode()\<close> is \<open>c\<close>; \<open>ProcessError\<close> is any other error of
  starting or waiting for the child; \<open>TransportError\<close> is an error of the model round trip;
  \<open>ErrToolCancelled\<close> is the sentinel of \<open>errors.go\<close>; \<open>Wrapped p e\<close> is
  \<open>fmt.Errorf(p + ": %w", e)\<close>.
\<close>

datatype goerror =
    ExitError int
  | ProcessError string
  | TransportError string
  | ErrToolCancelled
  | ErrMaxTurnsExceeded
  | ErrEmptyResponse
  | Wrapped string goerror

text \<open>
  \<open>isSandboxDenial(output, err)\<close>; \<open>None\<close> is the nil error. The type assertion
  \<open>err.(*exec.ExitError)\<close> succeeds on \<open>ExitError\<close> only.
\<close>

definition isSandboxDenial :: "string \<Rightarrow> goerror option \<Rightarrow> bool" where
  "isSandboxDenial output err =
     (let lower = ToLower output in
      if Contains lower ''sandbox'' \<and> Contains lower ''deny'' then True
      else if Contains lower ''operation not permitted'' then True
      else (case err of
              Some (ExitError code) \<Rightarrow>
                if code = 1 \<and> (Contains lower ''permission denied'' \<or>
                                Contains lower ''not permitted'')
                then True else False
            | _ \<Rightarrow> False))"

definition extractSandboxReason :: "string \<Rightarrow> string" where
  "extractSandboxReason output =
     (let lower = ToLower output in
      if Contains lower ''network'' then ''network access denied''
      else if Contains lower ''write'' \<or> Contains lower ''permission denied''
        then ''write access denied''
      else if Contains lower ''exec'' then ''execution denied''
      else if Contains lower ''read'' then ''read access denied''
      else if length output > 100 then take 100 output @ ''...''
      else if output \<noteq> [] then output
      else ''sandbox policy violation'')"


text \<open>
  Three outputs with a letter outside ASCII: \<open>OPERAT\<close>\<^emph>\<open>I\<close>\<open>ON NOT PERM\<close>\<^emph>\<open>I\<close>\<open>TTED\<close> written with
  \<open>U+0130\<close> for both \<^emph>\<open>I\<close>; \<open>NETWOR\<close>\<^emph>\<open>K\<close>\<open> down\<close> written with the Kelvin sign \<open>U+212A\<close>; and 99
  times \<open>x\<close> followed by \<open>U+00E9\<close> (e with an acute accent), which is 100 characters in 101
  bytes.
\<close>

definition dottedOutput :: string where
  "dottedOutput = ''OPERAT'' @ [CHR 0xC4, CHR 0xB0] @ ''ON NOT PERM'' @ [CHR 0xC4, CHR 0xB0] @ ''TTED''"

definition kelvinOutput :: string where
  "kelvinOutput = ''NETWOR'' @ [CHR 0xE2, CHR 0x84, CHR 0xAA] @ '' down''"



section \<open>The rules of a profile, as the specification counts them\<close>

text \<open>
  A profile seen as a sequence of rules, each rendered on a line of its own. This second
  description follows the specification's words (one allow-rule per path and category, one
  default-deny declaration, one network rule); \<open>generateProfile\<close> above is the code.
\<close>

datatype access = FileRead | FileWrite | ProcessExec

datatype rule =
    Version
  | DenyDefault
  | AllowOp string
  | AllowSubpath access string
  | AllowRegex string string
  | Network bool

definition opName :: "access \<Rightarrow> string" where
  "opName a = (case a of FileRead \<Rightarrow> ''file-read*''
                       | FileWrite \<Rightarrow> ''file-write*''
                       | ProcessExec \<Rightarrow> ''process-exec'')"

definition render :: "rule \<Rightarrow> string" where
  "render r =
     (case r of
        Version \<Rightarrow> ''(version 1)\<newline>''
      | DenyDefault \<Rightarrow> ''(deny default)\<newline>''
      | AllowOp ops \<Rightarrow> ''(allow '' @ ops @ '')\<newline>''
      | AllowSubpath a path \<Rightarrow> ''(allow '' @ opName a @ '' (subpath '' @ dq @ path @ dq @ ''))\<newline>''
      | AllowRegex ops re \<Rightarrow> ''(allow '' @ ops @ '' (regex #'' @ dq @ re @ dq @ ''))\<newline>''
      | Network allow \<Rightarrow> (if allow then ''(allow network*)\<newline>'' else ''(deny network*)\<newline>''))"

definition specRules :: "SandboxConfig \<Rightarrow> rule list" where
  "specRules config =
     [Version, DenyDefault, AllowOp ''process-fork'', AllowOp ''process-exec'']
     @ map (AllowSubpath FileRead) (ReadPaths config)
     @ map (AllowSubpath FileWrite) (WritePaths config)
     @ map (AllowSubpath ProcessExec) (ExecPaths config)
     @ [AllowOp ''file-read-metadata'', AllowOp ''sysctl-read'', AllowOp ''mach-lookup'',
        AllowOp ''signal'', AllowOp ''iokit-open'',
        AllowRegex ''file-read* file-write*'' ''^/dev/'',
        AllowRegex ''file-ioctl'' ''^/dev/'',
        Network (AllowNetwork config)]"

fun subpathsOf :: "access \<Rightarrow> rule list \<Rightarrow> string list" where
  "subpathsOf a [] = []"
| "subpathsOf a (AllowSubpath b path # rs) =
     (if a = b then path # subpathsOf a rs else subpathsOf a rs)"
| "subpathsOf a (r # rs) = subpathsOf a rs"


section \<open>Reading a profile\<close>















text \<open>
  Configurations to run the compiler on: an ordinary one; one whose only read path holds a
  double quote followed by the text of three more rules; one whose read path ends with a
  backslash; and two that differ in the number of their read paths, the single path of the
  first holding the text that the compiler puts between the two paths of the second.
\<close>

definition exampleConfig :: SandboxConfig where
  "exampleConfig =
     \<lparr> Enabled = True, AllowNetwork = False, ReadPaths = [''/''], WritePaths = [''/tmp''],
       ExecPaths = [''/bin''], FallbackOutsideSandbox = True \<rparr>"






section \<open>Facts about the string functions\<close>

lemma HasPrefix_iff: "HasPrefix s p \<longleftrightarrow> (\<exists>t. s = p @ t)"
  by (induction s p rule: HasPrefix.induct) auto

lemma Contains_iff: "Contains s sub \<longleftrightarrow> (\<exists>p t. s = p @ sub @ t)"
proof (induction s)
  case Nil
  then show ?case by auto
next
  case (Cons c s)
  show ?case
  proof
    assume "Contains (c # s) sub"
    then consider "HasPrefix (c # s) sub" | "Contains s sub" by auto
    then show "\<exists>p t. c # s = p @ sub @ t"
    proof cases
      case 1
      then obtain t where "c # s = sub @ t" by (auto simp: HasPrefix_iff)
      then have "c # s = [] @ sub @ t" by simp
      then show ?thesis by blast
    next
      case 2
      then obtain p t where "s = p @ sub @ t" using Cons.IH by auto
      then have "c # s = (c # p) @ sub @ t" by simp
      then show ?thesis by blast
    qed
  next
    assume "\<exists>p t. c # s = p @ sub @ t"
    then obtain p t where pt: "c # s = p @ sub @ t" by auto
    show "Contains (c # s) sub"
    proof (cases p)
      case Nil
      with pt have "HasPrefix (c # s) sub" unfolding HasPrefix_iff by auto
      then show ?thesis by simp
    next
      case (Cons d p')
      with pt have "s = p' @ sub @ t" by simp
      then show ?thesis using Cons.IH by auto
    qed
  qed
qed

lemma Contains_middle: "Contains (p @ sub @ t) sub"
  unfolding Contains_iff by blast


lemma Contains_Nil [simp]: "Contains s []"
  by (cases s) simp_all

text \<open>
  A search for an ASCII word does not see across bytes outside ASCII: the word lies before
  them or after them.
\<close>

lemma Contains_past_bytes:
  assumes word: "word \<noteq> []" "list_all isASCII word"
      and other: "bs \<noteq> []" "list_all (\<lambda>c. \<not> isASCII c) bs"
  shows "Contains (x @ bs @ y) word \<longleftrightarrow> Contains x word \<or> Contains y word"
proof
  assume "Contains x word \<or> Contains y word"
  then show "Contains (x @ bs @ y) word"
  proof
    assume "Contains x word"
    then obtain p t where "x = p @ word @ t" unfolding Contains_iff by blast
    then have "x @ bs @ y = p @ word @ (t @ bs @ y)" by simp
    then show ?thesis unfolding Contains_iff by blast
  next
    assume "Contains y word"
    then obtain p t where "y = p @ word @ t" unfolding Contains_iff by blast
    then have "x @ bs @ y = (x @ bs @ p) @ word @ t" by simp
    then show ?thesis unfolding Contains_iff by blast
  qed
next
  assume "Contains (x @ bs @ y) word"
  then obtain p t where eq: "x @ bs @ y = p @ word @ t" unfolding Contains_iff by blast
  consider (left) "length p + length word \<le> length x"
    | (right) "length x + length bs \<le> length p"
    | (over) "length x < length p + length word" "length p < length x + length bs"
    by linarith
  then show "Contains x word \<or> Contains y word"
  proof cases
    case left
    have "x = take (length x) (p @ word @ t)"
      using eq by (metis append_eq_conv_conj)
    also have "\<dots> = p @ word @ take (length x - length p - length word) t"
      using left by simp
    finally have "Contains x word" unfolding Contains_iff by blast
    then show ?thesis ..
  next
    case right
    have "y = drop (length x + length bs) (x @ bs @ y)" by simp
    also have "\<dots> = drop (length x + length bs) (p @ word @ t)" unfolding eq ..
    also have "\<dots> = drop (length x + length bs) p @ word @ t"
      using right by simp
    finally have "Contains y word" unfolding Contains_iff by blast
    then show ?thesis ..
  next
    case over
    define j where "j = max (length x) (length p)"
    have jx: "length x \<le> j" "j < length x + length bs"
      using over other(1) by (simp_all add: j_def)
    have jp: "length p \<le> j" "j < length p + length word"
      using over word(1) by (simp_all add: j_def)
    have ix: "j - length x < length bs" and ip: "j - length p < length word"
      using jx jp by linarith+
    have "(x @ bs @ y) ! j = bs ! (j - length x)"
      using jx ix by (simp add: nth_append)
    moreover have "(p @ word @ t) ! j = word ! (j - length p)"
      using jp ip by (simp add: nth_append)
    moreover have "\<not> isASCII (bs ! (j - length x))"
      using other(2) ix by (simp add: list_all_length)
    moreover have "isASCII (word ! (j - length p))"
      using word(2) ip by (simp add: list_all_length)
    ultimately show ?thesis
      using eq by simp
  qed
qed

lemma EncodeRune_other:
  assumes "0x80 \<le> r"
  shows "EncodeRune r \<noteq> []" and "list_all (\<lambda>c. \<not> isASCII c) (EncodeRune r)"
proof -
  show "EncodeRune r \<noteq> []"
    by (simp add: EncodeRune_def)
  have low: "0x80 \<le> (0x80 + n mod 0x40) mod 256" for n :: nat
  proof -
    have "0x80 + n mod 0x40 < 256" using mod_less_divisor [of "0x40" n] by simp
    then show ?thesis by simp
  qed
  have two: "0x80 \<le> (0xC0 + r div 0x40) mod 256" if "r < 0x800"
  proof -
    have "r div 0x40 < 0x20" using that by simp
    then have "0xC0 + r div 0x40 < 256" by simp
    then show ?thesis by simp
  qed
  have three: "0x80 \<le> (0xE0 + r div 0x1000) mod 256" if "r < 0x10000"
  proof -
    have "r div 0x1000 < 0x10" using that by simp
    then have "0xE0 + r div 0x1000 < 256" by simp
    then show ?thesis by simp
  qed
  have four: "0x80 \<le> (0xF0 + r div 0x40000) mod 256" if "r \<le> 0x10FFFF"
  proof -
    have "r div 0x40000 < 0x10" using that by simp
    then have "0xF0 + r div 0x40000 < 256" by simp
    then show ?thesis by simp
  qed
  show "list_all (\<lambda>c. \<not> isASCII c) (EncodeRune r)"
    using assms low two three four
    by (simp add: EncodeRune_def isASCII_def not_less)
qed

lemma Contains_Map_table_runes:
  assumes same: "\<And>r. unicodeToLower r < 0x80 \<Longrightarrow> table r = unicodeToLower r"
      and outside: "\<And>r. 0x80 \<le> unicodeToLower r \<Longrightarrow> 0x80 \<le> table r"
      and word: "word \<noteq> []" "list_all isASCII word"
  shows "Contains (x @ concat (map (\<lambda>c. EncodeRune (table c)) rs)) word
       = Contains (x @ concat (map (\<lambda>c. EncodeRune (unicodeToLower c)) rs)) word"
proof (induction rs arbitrary: x)
  case Nil
  then show ?case by simp
next
  case (Cons r rs)
  show ?case
  proof (cases "unicodeToLower r < 0x80")
    case True
    then have "table r = unicodeToLower r" by (rule same)
    then show ?thesis
      using Cons.IH [of "x @ EncodeRune (unicodeToLower r)"] by simp
  next
    case False
    then have u: "0x80 \<le> unicodeToLower r" by simp
    then have t: "0x80 \<le> table r" by (rule outside)
    show ?thesis
      using Contains_past_bytes [OF word EncodeRune_other [OF u]]
        Contains_past_bytes [OF word EncodeRune_other [OF t]]
        Cons.IH [of "[]"]
      by simp
  qed
qed

text \<open>
  Whatever the rest of the table of \<open>unicode.ToLower\<close> is: a table that agrees with
  \<open>unicodeToLower\<close> on the runes sent into ASCII, and sends every other rune outside ASCII,
  gives a lower-cased text in which the same ASCII words are found.
\<close>

lemma Contains_Map_table:
  assumes same: "\<And>r. unicodeToLower r < 0x80 \<Longrightarrow> table r = unicodeToLower r"
      and outside: "\<And>r. 0x80 \<le> unicodeToLower r \<Longrightarrow> 0x80 \<le> table r"
      and word: "list_all isASCII word"
  shows "Contains (Map table s) word = Contains (Map unicodeToLower s) word"
proof (cases "word = []")
  case True
  then show ?thesis by simp
next
  case False
  show ?thesis
    unfolding Map_def
    using Contains_Map_table_runes [OF same outside False word, of "[]" "runes s"] by simp
qed

lemma Contains_ToLower_table:
  assumes same: "\<And>r. unicodeToLower r < 0x80 \<Longrightarrow> table r = unicodeToLower r"
      and outside: "\<And>r. 0x80 \<le> unicodeToLower r \<Longrightarrow> 0x80 \<le> table r"
      and word: "list_all isASCII word"
  shows "Contains (if list_all isASCII s then map toLowerByte s else Map table s) word
       = Contains (ToLower s) word"
  using Contains_Map_table [OF same outside word, of s] by (simp add: ToLower_def)

lemmas utf8_defs = ToLower_def toLowerByte_def isASCII_def Map_def runes_def between_def
  unicodeToLower_def EncodeRune_def RuneError_def char_of_eq_iff

lemma runesFrom_numeral [simp]:
  "runesFrom (numeral n) (c # s) = runesFrom (pred_numeral n) s"
  by (simp add: numeral_eq_Suc)



lemma ToLower_examples:
  "ToLower dottedOutput = ''operation not permitted''"
  "ToLower kelvinOutput = ''network down''"
  by (simp_all add: dottedOutput_def kelvinOutput_def utf8_defs)



section \<open>The profile compiler\<close>

lemma foldl_WriteString:
  "foldl (\<lambda>sb path. WriteString sb (f path)) sb ps = sb @ concat (map f ps)"
  by (induction ps arbitrary: sb) (simp_all add: WriteString_def)

lemma render_subpath:
  "render (AllowSubpath FileRead p) = fmtRead p"
  "render (AllowSubpath FileWrite p) = fmtWrite p"
  "render (AllowSubpath ProcessExec p) = fmtExec p"
  by (simp_all add: render_def opName_def fmtRead_def fmtWrite_def fmtExec_def)

lemma generateProfile_text:
  "generateProfile config =
     ''(version 1)\<newline>'' @ ''(deny default)\<newline>'' @
     ''(allow process-fork)\<newline>'' @ ''(allow process-exec)\<newline>'' @
     concat (map fmtRead (ReadPaths config)) @
     concat (map fmtWrite (WritePaths config)) @
     concat (map fmtExec (ExecPaths config)) @
     ''(allow file-read-metadata)\<newline>'' @ ''(allow sysctl-read)\<newline>'' @
     ''(allow mach-lookup)\<newline>'' @ ''(allow signal)\<newline>'' @ ''(allow iokit-open)\<newline>'' @
     (''(allow file-read* file-write* (regex #'' @ dq @ ''^/dev/'' @ dq @ ''))\<newline>'') @
     (''(allow file-ioctl (regex #'' @ dq @ ''^/dev/'' @ dq @ ''))\<newline>'') @
     (if AllowNetwork config then ''(allow network*)\<newline>'' else ''(deny network*)\<newline>'')"
  unfolding generateProfile_def Let_def foldl_WriteString
  by (simp add: WriteString_def)

lemma concat_render_subpaths:
  "concat (map (render \<circ> AllowSubpath FileRead) ps) = concat (map fmtRead ps)"
  "concat (map (render \<circ> AllowSubpath FileWrite) ps) = concat (map fmtWrite ps)"
  "concat (map (render \<circ> AllowSubpath ProcessExec) ps) = concat (map fmtExec ps)"
  by (simp_all add: comp_def render_subpath)

lemma render_specRules:
  "concat (map render (specRules config)) = generateProfile config"
  unfolding generateProfile_text specRules_def
  by (simp add: concat_render_subpaths) (simp add: render_def)

lemma subpathsOf_append: "subpathsOf a (rs @ rs') = subpathsOf a rs @ subpathsOf a rs'"
  by (induction a rs rule: subpathsOf.induct) simp_all

lemma subpathsOf_map:
  "subpathsOf a (map (AllowSubpath b) ps) = (if a = b then ps else [])"
  by (induction ps) auto







lemma HasPrefix_append: "HasPrefix (p @ t) p"
  unfolding HasPrefix_iff by blast













lemma append_shape:
  "g = a @ b @ c @ d @ r @ w \<Longrightarrow> \<exists>pre post. g = pre @ r @ post"
  by (metis append_assoc)

lemma generateProfile_contains_read:
  assumes "p \<in> set (ReadPaths config)"
  shows "Contains (generateProfile config) (fmtRead p)"
proof -
  obtain ys zs where split: "ReadPaths config = ys @ p # zs"
    using assms by (meson split_list)
  obtain pre post where whole:
    "generateProfile config = pre @ concat (map fmtRead (ReadPaths config)) @ post"
    using append_shape [OF generateProfile_text [of config]] by blast
  have "generateProfile config
        = (pre @ concat (map fmtRead ys)) @ fmtRead p @ (concat (map fmtRead zs) @ post)"
    unfolding whole split by simp
  then show ?thesis
    unfolding Contains_iff by blast
qed


section \<open>The denial classifier\<close>

text \<open>
  C1. The classifier's verdict is decided by the four rules, over the output put to lower
  case by \<open>strings.ToLower\<close>: the output holds both \<open>sandbox\<close> and \<open>deny\<close> (whatever the error
  or exit code), or it holds \<open>operation not permitted\<close>, or the error is an exit with code
  exactly 1 and the output holds \<open>permission denied\<close> or \<open>not permitted\<close>; in every other
  case, whatever the exit code, the verdict is "not a denial".
\<close>

theorem isSandboxDenial_four_rules:
  "isSandboxDenial output err =
     ((Contains (ToLower output) ''sandbox'' \<and> Contains (ToLower output) ''deny'')
      \<or> Contains (ToLower output) ''operation not permitted''
      \<or> (err = Some (ExitError 1)
          \<and> (Contains (ToLower output) ''permission denied''
               \<or> Contains (ToLower output) ''not permitted'')))"
  by (auto simp add: isSandboxDenial_def Let_def split: option.splits goerror.splits)

theorem isSandboxDenial_four_rules_witness:
  "isSandboxDenial ''Sandbox: DENY'' (Some (ExitError 7))
   \<and> isSandboxDenial ''Operation not permitted'' None
   \<and> isSandboxDenial dottedOutput None
   \<and> isSandboxDenial ''Permission denied'' (Some (ExitError 1))
   \<and> \<not> isSandboxDenial ''Permission denied'' (Some (ExitError 2))
   \<and> \<not> isSandboxDenial ''no such file'' (Some (ExitError 1))"
proof -
  have low:
    "ToLower ''Sandbox: DENY'' = ''sandbox: deny''"
    "ToLower ''Operation not permitted'' = ''operation not permitted''"
    "ToLower ''Permission denied'' = ''permission denied''"
    "ToLower ''no such file'' = ''no such file''"
    by (simp_all add: ToLower_def toLowerByte_def isASCII_def)
  show ?thesis
    by (simp add: isSandboxDenial_four_rules low ToLower_examples)
qed





section \<open>The default configuration\<close>

text \<open>
  C10. Whatever the host, the default configuration has the single read path \<open>/\<close>, denies
  the network and allows the fallback outside the sandbox; the profile compiled from it
  holds the rule that allows reading under \<open>/\<close>, the root of the file system.
\<close>

theorem DefaultSandboxConfig_reads_root:
  "ReadPaths (DefaultSandboxConfig h) = [''/'']
   \<and> \<not> AllowNetwork (DefaultSandboxConfig h)
   \<and> FallbackOutsideSandbox (DefaultSandboxConfig h)
   \<and> subpathsOf FileRead (specRules (DefaultSandboxConfig h)) = [''/'']
   \<and> Contains (generateProfile (DefaultSandboxConfig h))
        (''(allow file-read* (subpath '' @ dq @ ''/'' @ dq @ ''))\<newline>'')"
proof -
  have fields:
    "ReadPaths (DefaultSandboxConfig h) = [''/'']"
    "\<not> AllowNetwork (DefaultSandboxConfig h)"
    "FallbackOutsideSandbox (DefaultSandboxConfig h)"
    by (simp_all add: DefaultSandboxConfig_def)
  have rules: "subpathsOf FileRead (specRules (DefaultSandboxConfig h)) = [''/'']"
    by (simp add: specRules_def subpathsOf_append subpathsOf_map fields)
  have "Contains (generateProfile (DefaultSandboxConfig h)) (fmtRead ''/'')"
    by (rule generateProfile_contains_read) (simp add: fields)
  then have prof: "Contains (generateProfile (DefaultSandboxConfig h))
        (''(allow file-read* (subpath '' @ dq @ ''/'' @ dq @ ''))\<newline>'')"
    by (simp add: fmtRead_def)
  from fields rules prof show ?thesis by blast
qed


section \<open>types.go: messages and tool calls\<close>

text \<open>
  A value of Go's \<open>any\<close> as \<open>encoding/json\<close> decodes it: nil, a string, a bool, a number,
  a slice \<open>[]any\<close> or a map \<open>map[string]any\<close>. A map is kept as an association list, read
  with \<open>map_of\<close>; the nil map is the empty list.
\<close>

datatype any =
    ANil
  | AString string
  | ABool bool
  | ANumber int
  | ASlice "any list"
  | AMap "(string \<times> any) list"

type_synonym args = "(string \<times> any) list"

text \<open>\<open>s, _ := m[key].(string)\<close>: the string under the key, or the empty string.\<close>

definition stringAt :: "args \<Rightarrow> string \<Rightarrow> string" where
  "stringAt m key = (case map_of m key of Some (AString s) \<Rightarrow> s | _ \<Rightarrow> [])"

record FunctionCall =
  Name :: string
  Arguments :: string

record ToolCall =
  ID :: string
  Type :: string
  Function :: FunctionCall

record Message =
  Role :: string
  Content :: any
  ToolCalls :: "ToolCall list"
  ToolCallID :: string


section \<open>agent.go: the text of a message\<close>

text \<open>One round of the loop over the parts in \<open>messageContent\<close>, on the builder \<open>b\<close>.\<close>

definition writePart :: "string \<Rightarrow> any \<Rightarrow> string" where
  "writePart b part =
     (case part of
        AMap m \<Rightarrow>
          (let t = stringAt m ''type'' in
           if t \<noteq> ''text'' \<and> t \<noteq> ''output_text'' then b
           else (let text = stringAt m ''text'' in
                 if text = [] then b else WriteString b text))
      | _ \<Rightarrow> b)"

text \<open>\<open>messageContent(msg)\<close>; \<open>None\<close> is the nil pointer.\<close>

definition messageContent :: "Message option \<Rightarrow> string" where
  "messageContent msg =
     (case msg of
        None \<Rightarrow> []
      | Some m \<Rightarrow>
          (case Content m of
             AString v \<Rightarrow> v
           | ASlice v \<Rightarrow> foldl writePart [] v
           | _ \<Rightarrow> []))"

text \<open>
  The specification's words for the same: a part counts when it is a typed part whose
  type is \<open>text\<close> or \<open>output_text\<close>, and what it contributes is its text.
\<close>

definition isTextPart :: "any \<Rightarrow> bool" where
  "isTextPart part =
     (case part of
        AMap m \<Rightarrow> stringAt m ''type'' = ''text'' \<or> stringAt m ''type'' = ''output_text''
      | _ \<Rightarrow> False)"

definition partText :: "any \<Rightarrow> string" where
  "partText part = (case part of AMap m \<Rightarrow> stringAt m ''text'' | _ \<Rightarrow> [])"

lemma writePart_eq:
  "writePart b part = b @ (if isTextPart part then partText part else [])"
  by (auto simp add: writePart_def isTextPart_def partText_def WriteString_def Let_def
      split: any.splits)

lemma foldl_writePart:
  "foldl writePart b parts = b @ concat (map partText (filter isTextPart parts))"
  by (induction parts arbitrary: b) (simp_all add: writePart_eq)

text \<open>
  C9. The text of a message is its content when that is a plain string; when the content
  is a list of parts it is the texts, joined in order, of exactly the parts whose type is
  \<open>text\<close> or \<open>output_text\<close>; for every other shape of content it is empty.
\<close>

theorem messageContent_extracts_text:
  "messageContent (Some msg) =
     (case Content msg of
        AString s \<Rightarrow> s
      | ASlice parts \<Rightarrow> concat (map partText (filter isTextPart parts))
      | ANil \<Rightarrow> []
      | ABool b \<Rightarrow> []
      | ANumber n \<Rightarrow> []
      | AMap m \<Rightarrow> [])"
  by (simp add: messageContent_def foldl_writePart split: any.splits)

theorem messageContent_extracts_text_witness:
  "messageContent (Some \<lparr> Role = ''assistant'',
      Content = ASlice [AMap [(''type'', AString ''text''), (''text'', AString ''ab'')],
                        AMap [(''type'', AString ''image_url''), (''text'', AString ''no'')],
                        AString ''loose'',
                        AMap [(''type'', AString ''output_text''), (''text'', AString ''cd'')]],
      ToolCalls = [], ToolCallID = [] \<rparr>) = ''abcd''
   \<and> messageContent (Some \<lparr> Role = ''assistant'', Content = AString ''plain'',
      ToolCalls = [], ToolCallID = [] \<rparr>) = ''plain''
   \<and> messageContent (Some \<lparr> Role = ''assistant'', Content = AMap [(''text'', AString ''x'')],
      ToolCalls = [], ToolCallID = [] \<rparr>) = []"
  by (simp add: messageContent_extracts_text isTextPart_def partText_def stringAt_def)


section \<open>Execution results, hooks and the world outside\<close>

text \<open>
  Modelled from the spec: the declaration of \<open>ExecMeta\<close> is not among the sources. Its
  three fields are the ones the specification lists and \<open>sandbox.go\<close> and its test assign.
\<close>

record ExecMeta =
  Sandboxed :: bool
  SandboxError :: bool
  SandboxReason :: string

text \<open>
  \<open>ToolResult\<close> as \<open>sandbox.go\<close> builds it: the four fields of \<open>types.go\<close> and the pointer
  \<open>ExecMeta\<close> (\<open>None\<close> is nil).
\<close>

record ToolResult =
  Success :: bool
  Output :: string
  Status :: string
  Error :: "goerror option"
  ExecMeta :: "ExecMeta option"

text \<open>
  Everything the code does to the outside is an event, and the run of a function is the
  sequence of events it adds: a model round trip with the history sent (with the client's
  tools, or \<open>ChatCompletionWithTools\<close> with the tool set \<open>SubagentShellTool\<close>), a child
  process with its argument vector, a call of the plain tool dispatcher, a call of a hook.
\<close>

datatype event =
    CallChatCompletion "Message list"
  | Exec "string list"
  | CallExecuteTool string args
  | CallOnToolCall string args
  | CallOnToolDone string args ToolResult
  | CallOnMessage string
  | CallOnPreTaskStart string
  | CallOnPreTaskEnd string
  | CallOnSandboxFallback string string
  | CallOnSubagentToolCall string args ExecMeta
  | CallOnSubagentToolDone string args ToolResult
  | CallOnShellSubagentStart string
  | CallOnShellSubagentEnd ToolResult
  | CallChatCompletionWithTools "Message list"

text \<open>
  What \<open>cmd.CombinedOutput()\<close> gives back: the interleaved output, the error (\<open>None\<close> is
  nil) and the elapsed seconds as \<open>%.1f\<close> prints them.
\<close>

record Outcome =
  out :: string
  err :: "goerror option"
  elapsed :: string

datatype ShellExecutor = SandboxedExecutor SandboxConfig | PassthroughExecutor

text \<open>
  The world answers as a function of the events so far: the model (\<open>ChatCompletion\<close> of
  \<open>client.go\<close>), the operating system running a child process, the plain tool dispatcher
  \<open>ExecuteTool\<close> (file tools, outside the scope of the specification), and
  \<open>json.Unmarshal\<close> into a \<open>map[string]any\<close> (\<open>None\<close> when the payload is malformed). It also
  holds the host facts and the package variable \<open>defaultExecutor\<close> (\<open>None\<close> is nil).
\<close>

record World =
  ChatCompletion :: "event list \<Rightarrow> Message list \<Rightarrow> goerror + Message"
  ChatCompletionWithTools :: "event list \<Rightarrow> Message list \<Rightarrow> goerror + Message"
  CombinedOutput :: "event list \<Rightarrow> string list \<Rightarrow> Outcome"
  ExecuteTool :: "event list \<Rightarrow> string \<Rightarrow> args \<Rightarrow> ToolResult"
  Unmarshal :: "string \<Rightarrow> args option"
  host :: Host
  defaultExecutor :: "ShellExecutor option"

record PreTaskConfig =
  TaskName :: string
  SystemPrompt :: string
  Input :: string
  DoneMarker :: string

text \<open>Of \<open>Config\<close>, the two fields the agent's loops read.\<close>

record Config =
  PreTasks :: "PreTaskConfig list"
  Sandbox :: "SandboxConfig"

text \<open>
  The agent. A hook that returns a verdict is a function of the events so far and its
  arguments, \<open>None\<close> when the field is nil; a hook that returns nothing is \<open>True\<close> when it is
  set. The source file holds several revisions of the agent; the record has the fields of
  the methods modelled here.
\<close>

record Agent =
  config :: Config
  msgs :: "Message list"
  preTasksDone :: bool
  OnToolCall :: "(event list \<Rightarrow> string \<Rightarrow> args \<Rightarrow> bool) option"
  OnToolDone :: bool
  OnMessage :: bool
  OnPreTaskStart :: bool
  OnPreTaskEnd :: bool
  OnSandboxFallback :: "(event list \<Rightarrow> string \<Rightarrow> string \<Rightarrow> bool) option"
  OnSubagentToolCall :: "(event list \<Rightarrow> string \<Rightarrow> args \<Rightarrow> ExecMeta \<Rightarrow> bool) option"
  OnSubagentToolDone :: bool
  OnShellSubagentStart :: bool
  OnShellSubagentEnd :: bool


section \<open>sandbox.go: the two executors\<close>

definition NewShellExecutor :: "Host \<Rightarrow> SandboxConfig \<Rightarrow> ShellExecutor" where
  "NewShellExecutor h cfg =
     (if Enabled cfg \<and> sandboxAvailable h then SandboxedExecutor cfg else PassthroughExecutor)"

definition SandboxedExecutor_Run ::
  "World \<Rightarrow> SandboxConfig \<Rightarrow> string \<Rightarrow> event list \<Rightarrow> (ToolResult \<times> ExecMeta) \<times> event list" where
  "SandboxedExecutor_Run W cfg command tr =
     (let profile = generateProfile cfg;
          argv = [''sandbox-exec'', ''-p'', profile, ''sh'', ''-c'', command];
          oc = CombinedOutput W tr argv;
          tr' = tr @ [Exec argv];
          meta = \<lparr> Sandboxed = True, SandboxError = False, SandboxReason = [] \<rparr>
      in case err oc of
           Some e \<Rightarrow>
             (let output = out oc in
              if isSandboxDenial output (Some e) then
                (let meta = meta \<lparr> SandboxError := True,
                                   SandboxReason := extractSandboxReason output \<rparr>
                 in ((\<lparr> Success = False, Output = output,
                         Status = ''sandbox blocked ('' @ elapsed oc @ ''s)'',
                         Error = Some e, ExecMeta = Some meta \<rparr>, meta), tr'))
              else
                ((\<lparr> Success = False, Output = output,
                     Status = ''fail ('' @ elapsed oc @ ''s)'',
                     Error = Some e, ExecMeta = Some meta \<rparr>, meta), tr'))
         | None \<Rightarrow>
             ((\<lparr> Success = True, Output = out oc,
                  Status = ''ok ('' @ elapsed oc @ ''s)'',
                  Error = None, ExecMeta = Some meta \<rparr>, meta), tr'))"

definition PassthroughExecutor_Run ::
  "World \<Rightarrow> string \<Rightarrow> event list \<Rightarrow> (ToolResult \<times> ExecMeta) \<times> event list" where
  "PassthroughExecutor_Run W command tr =
     (let meta = \<lparr> Sandboxed = False, SandboxError = False, SandboxReason = [] \<rparr>;
          argv = [''sh'', ''-c'', command];
          oc = CombinedOutput W tr argv;
          tr' = tr @ [Exec argv]
      in case err oc of
           Some e \<Rightarrow>
             ((\<lparr> Success = False, Output = out oc,
                  Status = ''fail ('' @ elapsed oc @ ''s)'',
                  Error = Some e, ExecMeta = Some meta \<rparr>, meta), tr')
         | None \<Rightarrow>
             ((\<lparr> Success = True, Output = out oc,
                  Status = ''ok ('' @ elapsed oc @ ''s)'',
                  Error = None, ExecMeta = Some meta \<rparr>, meta), tr'))"

definition Run ::
  "World \<Rightarrow> ShellExecutor \<Rightarrow> string \<Rightarrow> event list \<Rightarrow> (ToolResult \<times> ExecMeta) \<times> event list" where
  "Run W ex command tr =
     (case ex of
        SandboxedExecutor cfg \<Rightarrow> SandboxedExecutor_Run W cfg command tr
      | PassthroughExecutor \<Rightarrow> PassthroughExecutor_Run W command tr)"

text \<open>
  \<open>GetExecutor\<close> also stores the executor it makes when \<open>defaultExecutor\<close> is nil; with the
  host facts fixed, making it again gives the same executor, so the store is left out.
\<close>

definition GetExecutor :: "World \<Rightarrow> ShellExecutor" where
  "GetExecutor W =
     (case defaultExecutor W of
        None \<Rightarrow> NewShellExecutor (host W) (DefaultSandboxConfig (host W))
      | Some ex \<Rightarrow> ex)"

definition IsSandboxEnabled :: "World \<Rightarrow> bool" where
  "IsSandboxEnabled W =
     (case GetExecutor W of SandboxedExecutor cfg \<Rightarrow> True | PassthroughExecutor \<Rightarrow> False)"


section \<open>tools.go: shell execution and the fallback\<close>

definition ExecuteShell :: "World \<Rightarrow> string \<Rightarrow> event list \<Rightarrow> ToolResult \<times> event list" where
  "ExecuteShell W command tr =
     (let ((result, meta), tr') = Run W (GetExecutor W) command tr in (result, tr'))"

definition ExecuteShellUnsandboxed :: "World \<Rightarrow> string \<Rightarrow> event list \<Rightarrow> ToolResult \<times> event list" where
  "ExecuteShellUnsandboxed W command tr =
     (let ((result, meta), tr') = PassthroughExecutor_Run W command tr in (result, tr'))"

text \<open>\<open>result.ExecMeta != nil && result.ExecMeta.SandboxError\<close>\<close>

definition sandboxBlocked :: "ToolResult \<Rightarrow> bool" where
  "sandboxBlocked result = (case ExecMeta result of None \<Rightarrow> False | Some m \<Rightarrow> SandboxError m)"

text \<open>\<open>result.ExecMeta.SandboxReason\<close>, read where the pointer is known not to be nil.\<close>

definition reasonOf :: "ToolResult \<Rightarrow> string" where
  "reasonOf result = (case ExecMeta result of None \<Rightarrow> [] | Some m \<Rightarrow> SandboxReason m)"

text \<open>The package function \<open>ExecuteShellWithSandbox(command, onFallback)\<close> of \<open>tools.go\<close>.\<close>

definition ExecuteShellWithSandbox ::
  "World \<Rightarrow> string \<Rightarrow> (event list \<Rightarrow> string \<Rightarrow> string \<Rightarrow> bool) option \<Rightarrow> event list
     \<Rightarrow> ToolResult \<times> event list" where
  "ExecuteShellWithSandbox W command onFallback tr =
     (if \<not> IsSandboxEnabled W then ExecuteShellUnsandboxed W command tr
      else
        (let (result, tr1) = ExecuteShell W command tr in
         if sandboxBlocked result then
           (case onFallback of
              None \<Rightarrow> (result, tr1)
            | Some f \<Rightarrow>
                (let tr2 = tr1 @ [CallOnSandboxFallback command (reasonOf result)] in
                 if f tr1 command (reasonOf result)
                 then ExecuteShellUnsandboxed W command tr2
                 else (result, tr2)))
         else (result, tr1)))"

definition cancelledResult :: ToolResult where
  "cancelledResult =
     \<lparr> Success = False, Output = ''cancelled by user'', Status = ''cancelled'',
       Error = None, ExecMeta = None \<rparr>"

text \<open>
  The agent's method \<open>executeShellWithSandbox(command, args)\<close> of the revision of
  \<open>agent.go\<close> with the shell subagent.
\<close>

definition executeShellWithSandbox ::
  "World \<Rightarrow> Agent \<Rightarrow> string \<Rightarrow> args \<Rightarrow> event list \<Rightarrow> ToolResult \<times> event list" where
  "executeShellWithSandbox W a command args tr =
     (let sandboxEnabled = IsSandboxEnabled W in
      if sandboxEnabled then
        (let (result, tr1) = ExecuteShell W command tr in
         if sandboxBlocked result then
           (if FallbackOutsideSandbox (Sandbox (config a))
               \<or> FallbackOutsideSandbox (DefaultSandboxConfig (host W))
            then
              (case OnSandboxFallback a of
                 None \<Rightarrow> (result, tr1)
               | Some f \<Rightarrow>
                   (let reason = reasonOf result;
                        tr2 = tr1 @ [CallOnSandboxFallback command reason] in
                    if \<not> f tr1 command reason then (cancelledResult, tr2)
                    else ExecuteShellUnsandboxed W command tr2))
            else (result, tr1))
         else
           (case OnSubagentToolCall a of
              None \<Rightarrow> (result, tr1)
            | Some g \<Rightarrow>
                (let meta = (case ExecMeta result of
                               Some m \<Rightarrow> m
                             | None \<Rightarrow> \<lparr> Sandboxed = True, SandboxError = False,
                                          SandboxReason = [] \<rparr>)
                 in (result, tr1 @ [CallOnSubagentToolCall ''run_shell'' args meta]))))
      else
        (case OnSubagentToolCall a of
           None \<Rightarrow> ExecuteShellUnsandboxed W command tr
         | Some g \<Rightarrow>
             (let meta = \<lparr> Sandboxed = False, SandboxError = False, SandboxReason = [] \<rparr>;
                  tr1 = tr @ [CallOnSubagentToolCall ''run_shell'' args meta] in
              if \<not> g tr ''run_shell'' args meta then (cancelledResult, tr1)
              else ExecuteShellUnsandboxed W command tr1)))"


section \<open>agent.go: the turn loop\<close>

text \<open>
  \<open>Chat\<close> and \<open>runPreTasks\<close> of the revision of \<open>agent.go\<close> with the turn caps and
  \<open>messageContent\<close> (lines 550-840), where \<open>run_shell\<close> goes to \<open>ExecuteShellWithSandbox\<close>.
\<close>

definition maxChatTurns :: nat where
  "maxChatTurns = 10"

definition maxPreTaskTurns :: nat where
  "maxPreTaskTurns = 10"

text \<open>
  \<open>var args map[string]any; json.Unmarshal(payload, &args)\<close> with the error dropped: a
  malformed payload leaves the nil map.
\<close>

definition decodeArgs :: "World \<Rightarrow> string \<Rightarrow> args" where
  "decodeArgs W payload = (case Unmarshal W payload of None \<Rightarrow> [] | Some m \<Rightarrow> m)"

text \<open>
  \<open>unicode.IsSpace\<close>: the white space of Unicode.
\<close>

definition isSpaceRune :: "nat \<Rightarrow> bool" where
  "isSpaceRune r =
     ((0x09 \<le> r \<and> r \<le> 0x0D) \<or> r = 0x20 \<or> r = 0x85 \<or> r = 0xA0 \<or> r = 0x1680
      \<or> (0x2000 \<le> r \<and> r \<le> 0x200A) \<or> r = 0x2028 \<or> r = 0x2029 \<or> r = 0x202F
      \<or> r = 0x205F \<or> r = 0x3000)"

text \<open>
  \<open>utf8.DecodeLastRuneInString\<close>: the last rune of a string and its width. From the last
  byte it steps back over continuation bytes, three at most, to a byte that can start a
  rune, decodes there, and takes the rune when it ends where the string ends; otherwise the
  last byte alone is \<open>RuneError\<close> of width 1.
\<close>

definition RuneStart :: "char \<Rightarrow> bool" where
  "RuneStart c = (\<not> between 0x80 c 0xBF)"

definition lastStart :: "string \<Rightarrow> nat" where
  "lastStart s =
     (let lim = length s - 4 in
      case find (\<lambda>i. RuneStart (s ! i)) (rev [lim ..< length s - 1]) of
        Some i \<Rightarrow> i
      | None \<Rightarrow> lim - 1)"

definition DecodeLastRune :: "string \<Rightarrow> nat \<times> nat" where
  "DecodeLastRune s =
     (if s = [] then (RuneError, 0)
      else if of_char (last s) < (0x80 :: nat) then (of_char (last s), 1)
      else
        (let start = lastStart s;
             (r, size) = DecodeRune (drop start s)
         in if start + size \<noteq> length s then (RuneError, 1) else (r, size)))"

lemma DecodeRune_width: "s \<noteq> [] \<Longrightarrow> 1 \<le> snd (DecodeRune s)"
  by (cases s) (simp_all add: Let_def split: list.splits)

lemma lastStart_less: "s \<noteq> [] \<Longrightarrow> lastStart s < length s"
proof (cases "find (\<lambda>i. RuneStart (s ! i)) (rev [length s - 4 ..< length s - 1])")
  case None
  assume "s \<noteq> []"
  then show ?thesis using None by (simp add: lastStart_def)
next
  case (Some i)
  then have "i \<in> set (rev [length s - 4 ..< length s - 1])"
    by (metis find_Some_iff nth_mem)
  then have "i < length s" by auto
  then show ?thesis using Some by (simp add: lastStart_def)
qed

lemma DecodeLastRune_width: "s \<noteq> [] \<Longrightarrow> 1 \<le> snd (DecodeLastRune s)"
proof -
  assume ne: "s \<noteq> []"
  then have "drop (lastStart s) s \<noteq> []"
    using lastStart_less [of s] by simp
  then have "1 \<le> snd (DecodeRune (drop (lastStart s) s))"
    by (rule DecodeRune_width)
  then show ?thesis
    using ne by (simp add: DecodeLastRune_def Let_def case_prod_beta)
qed

text \<open>
  \<open>strings.TrimLeftFunc(s, unicode.IsSpace)\<close> and \<open>strings.TrimRightFunc(s, unicode.IsSpace)\<close>:
  white space is cut rune by rune, from the left as \<open>DecodeRune\<close> reads it and from the
  right as \<open>DecodeLastRune\<close> reads it. A byte that is not part of a well-formed rune is no
  white space.
\<close>

function TrimLeftSpace :: "string \<Rightarrow> string" where
  "TrimLeftSpace s =
     (if s \<noteq> [] \<and> isSpaceRune (fst (DecodeRune s))
      then TrimLeftSpace (drop (snd (DecodeRune s)) s)
      else s)"
  by pat_completeness auto
termination
proof (relation "measure length")
  fix s :: string
  assume "s \<noteq> [] \<and> isSpaceRune (fst (DecodeRune s))"
  then have "s \<noteq> []" "0 < snd (DecodeRune s)"
    using DecodeRune_width [of s] by simp_all
  then show "(drop (snd (DecodeRune s)) s, s) \<in> measure length"
    by simp
qed simp

declare TrimLeftSpace.simps [simp del]

function TrimRightSpace :: "string \<Rightarrow> string" where
  "TrimRightSpace s =
     (if s \<noteq> [] \<and> isSpaceRune (fst (DecodeLastRune s))
      then TrimRightSpace (take (length s - snd (DecodeLastRune s)) s)
      else s)"
  by pat_completeness auto
termination
proof (relation "measure length")
  fix s :: string
  assume "s \<noteq> [] \<and> isSpaceRune (fst (DecodeLastRune s))"
  then have "s \<noteq> []" "0 < snd (DecodeLastRune s)"
    using DecodeLastRune_width [of s] by simp_all
  then show "(take (length s - snd (DecodeLastRune s)) s, s) \<in> measure length"
    by simp
qed simp

declare TrimRightSpace.simps [simp del]

text \<open>\<open>strings.TrimSpace\<close>: white space cut from both ends.\<close>

definition TrimSpace :: "string \<Rightarrow> string" where
  "TrimSpace s = TrimRightSpace (TrimLeftSpace s)"

text \<open>\<open>a.OnToolCall != nil && !a.OnToolCall(name, args)\<close> is the negation of the verdict here.\<close>

definition askOnToolCall :: "Agent \<Rightarrow> string \<Rightarrow> args \<Rightarrow> event list \<Rightarrow> bool \<times> event list" where
  "askOnToolCall a name args tr =
     (case OnToolCall a of
        None \<Rightarrow> (True, tr)
      | Some h \<Rightarrow> (h tr name args, tr @ [CallOnToolCall name args]))"

text \<open>\<open>if a.OnMessage != nil && strings.TrimSpace(content) != "" { a.OnMessage(content) }\<close>\<close>

definition notifyMessage :: "Agent \<Rightarrow> string \<Rightarrow> event list \<Rightarrow> event list" where
  "notifyMessage a content tr =
     (if OnMessage a \<and> TrimSpace content \<noteq> [] then tr @ [CallOnMessage content] else tr)"

text \<open>
  The loop over the tool calls of one assistant message, the same text in \<open>Chat\<close> and in
  \<open>runPreTasks\<close>: the result is the flag \<open>cancelled\<close>, the collected \<open>toolResults\<close> and the
  events.
\<close>

fun runToolCalls ::
  "World \<Rightarrow> Agent \<Rightarrow> ToolCall list \<Rightarrow> Message list \<Rightarrow> event list
     \<Rightarrow> bool \<times> Message list \<times> event list" where
  "runToolCalls W a [] toolResults tr = (False, toolResults, tr)"
| "runToolCalls W a (tc # rest) toolResults tr =
     (let name = Name (Function tc);
          args = decodeArgs W (Arguments (Function tc));
          (approved, tr1) = askOnToolCall a name args tr
      in if \<not> approved then (True, toolResults, tr1)
         else
           (let (result, tr2) =
                  (if name = ''run_shell''
                   then ExecuteShellWithSandbox W (stringAt args ''command'') (OnSandboxFallback a) tr1
                   else (ExecuteTool W tr1 name args, tr1 @ [CallExecuteTool name args]));
                tr3 = (if OnToolDone a then tr2 @ [CallOnToolDone name args result] else tr2)
            in runToolCalls W a rest
                 (toolResults @ [\<lparr> Role = ''tool'', Content = AString (Output result),
                                   ToolCalls = [], ToolCallID = ID tc \<rparr>])
                 tr3))"

text \<open>
  One round of the loop of \<open>Chat\<close>, after the test of the turn counter. \<open>Chat\<close> returns
  \<open>(string, error)\<close>: \<open>Inr s\<close> is \<open>(s, nil)\<close> and \<open>Inl e\<close> is \<open>("", e)\<close>; the round gives
  \<open>Some r\<close> when it returns \<open>r\<close> and \<open>None\<close> when the loop goes on. The history before
  \<open>a.msgs[:len(a.msgs)-1]\<close> holds the assistant message at least, so the slice is in range.
\<close>

definition chatTurn ::
  "World \<Rightarrow> Agent \<Rightarrow> event list \<Rightarrow> (goerror + string) option \<times> Agent \<times> event list" where
  "chatTurn W a tr =
     (let tr1 = tr @ [CallChatCompletion (msgs a)] in
      case ChatCompletion W tr (msgs a) of
        Inl e \<Rightarrow> (Some (Inl e), a, tr1)
      | Inr msg \<Rightarrow>
          (let a1 = a \<lparr> msgs := msgs a @ [msg] \<rparr>;
               content = messageContent (Some msg);
               tr2 = notifyMessage a1 content tr1
           in if length (ToolCalls msg) = 0 then
                (if content = [] then (Some (Inl ErrEmptyResponse), a1, tr2)
                 else (Some (Inr content), a1, tr2))
              else
                (let (cancelled, toolResults, tr3) = runToolCalls W a1 (ToolCalls msg) [] tr2
                 in if cancelled
                    then (Some (Inr []),
                          a1 \<lparr> msgs := take (length (msgs a1) - 1) (msgs a1) \<rparr>, tr3)
                    else (None, a1 \<lparr> msgs := msgs a1 @ toolResults \<rparr>, tr3))))"

function chatLoop ::
  "World \<Rightarrow> nat \<Rightarrow> Agent \<Rightarrow> event list \<Rightarrow> (goerror + string) \<times> Agent \<times> event list" where
  "chatLoop W turns a tr =
     (if turns \<ge> maxChatTurns then (Inl ErrMaxTurnsExceeded, a, tr)
      else (case chatTurn W a tr of
              (Some r, a', tr') \<Rightarrow> (r, a', tr')
            | (None, a', tr') \<Rightarrow> chatLoop W (turns + 1) a' tr'))"
  by pat_completeness auto
termination
  by (relation "measure (\<lambda>(W, turns, a, tr). maxChatTurns - turns)") auto

declare chatLoop.simps [simp del]

text \<open>How one round of the loop of a task ends: a \<open>return\<close>, a \<open>break\<close>, or on to the next round.\<close>

datatype 'r step = Return 'r | Break | Continue

text \<open>
  One round of the loop of \<open>runPreTasks\<close> for one task, on the task's own history
  \<open>taskMsgs\<close>; \<open>Return e\<close> is \<open>return e\<close>.
\<close>

definition preTaskTurn ::
  "World \<Rightarrow> Agent \<Rightarrow> PreTaskConfig \<Rightarrow> Message list \<Rightarrow> event list
     \<Rightarrow> goerror step \<times> Message list \<times> event list" where
  "preTaskTurn W a task taskMsgs tr =
     (let tr1 = tr @ [CallChatCompletion taskMsgs] in
      case ChatCompletion W tr taskMsgs of
        Inl e \<Rightarrow> (Return e, taskMsgs, tr1)
      | Inr msg \<Rightarrow>
          (let taskMsgs1 = taskMsgs @ [msg];
               content = messageContent (Some msg);
               tr2 = notifyMessage a content tr1
           in if length (ToolCalls msg) = 0 then
                (if content = []
                 then (Return (Wrapped (''pretask '' @ TaskName task) ErrEmptyResponse), taskMsgs1, tr2)
                 else (Break, taskMsgs1, tr2))
              else
                (let (cancelled, toolResults, tr3) = runToolCalls W a (ToolCalls msg) [] tr2
                 in if cancelled
                    then (Return ErrToolCancelled,
                          take (length taskMsgs1 - 1) taskMsgs1,
                          (if OnPreTaskEnd a then tr3 @ [CallOnPreTaskEnd (TaskName task)] else tr3))
                    else (Continue, taskMsgs1 @ toolResults, tr3))))"

text \<open>The loop of one task; \<open>None\<close> is leaving the loop by \<open>break\<close>, \<open>Some e\<close> is \<open>return e\<close>.\<close>

function preTaskLoop ::
  "World \<Rightarrow> Agent \<Rightarrow> PreTaskConfig \<Rightarrow> nat \<Rightarrow> Message list \<Rightarrow> event list
     \<Rightarrow> goerror option \<times> event list" where
  "preTaskLoop W a task turns taskMsgs tr =
     (if turns \<ge> maxPreTaskTurns
      then (Some (Wrapped (''pretask '' @ TaskName task) ErrMaxTurnsExceeded), tr)
      else (case preTaskTurn W a task taskMsgs tr of
              (Return e, taskMsgs', tr') \<Rightarrow> (Some e, tr')
            | (Break, taskMsgs', tr') \<Rightarrow> (None, tr')
            | (Continue, taskMsgs', tr') \<Rightarrow> preTaskLoop W a task (turns + 1) taskMsgs' tr'))"
  by pat_completeness auto
termination
  by (relation "measure (\<lambda>(W, a, task, turns, taskMsgs, tr). maxPreTaskTurns - turns)") auto

declare preTaskLoop.simps [simp del]

text \<open>The loop over the tasks; \<open>None\<close> is \<open>return nil\<close>.\<close>

fun runTasks ::
  "World \<Rightarrow> Agent \<Rightarrow> PreTaskConfig list \<Rightarrow> event list \<Rightarrow> goerror option \<times> event list" where
  "runTasks W a [] tr = (None, tr)"
| "runTasks W a (task # rest) tr =
     (let tr0 = (if OnPreTaskStart a then tr @ [CallOnPreTaskStart (TaskName task)] else tr);
          taskMsgs = [\<lparr> Role = ''system'', Content = AString (SystemPrompt task),
                         ToolCalls = [], ToolCallID = [] \<rparr>];
          input = Input task;
          input = (if input = [] then ''Begin'' else input);
          taskMsgs = taskMsgs @ [\<lparr> Role = ''user'', Content = AString input,
                                    ToolCalls = [], ToolCallID = [] \<rparr>]
      in case preTaskLoop W a task 0 taskMsgs tr0 of
           (Some e, tr1) \<Rightarrow> (Some e, tr1)
         | (None, tr1) \<Rightarrow>
             runTasks W a rest
               (if OnPreTaskEnd a then tr1 @ [CallOnPreTaskEnd (TaskName task)] else tr1))"

definition runPreTasks :: "World \<Rightarrow> Agent \<Rightarrow> event list \<Rightarrow> goerror option \<times> event list" where
  "runPreTasks W a tr = runTasks W a (PreTasks (config a)) tr"

definition Chat ::
  "World \<Rightarrow> Agent \<Rightarrow> string \<Rightarrow> event list \<Rightarrow> (goerror + string) \<times> Agent \<times> event list" where
  "Chat W a input tr =
     (let (failed, a, tr) =
            (if \<not> preTasksDone a \<and> length (PreTasks (config a)) > 0 then
               (case runPreTasks W a tr of
                  (Some e, tr') \<Rightarrow> (Some e, a, tr')
                | (None, tr') \<Rightarrow> (None, a \<lparr> preTasksDone := True \<rparr>, tr'))
             else (None, a, tr))
      in case failed of
           Some e \<Rightarrow> (Inl e, a, tr)
         | None \<Rightarrow>
             chatLoop W 0
               (a \<lparr> msgs := msgs a @ [\<lparr> Role = ''user'', Content = AString input,
                                         ToolCalls = [], ToolCallID = [] \<rparr>] \<rparr>)
               tr)"

fun isCompletion :: "event \<Rightarrow> bool" where
  "isCompletion (CallChatCompletion ms) = True"
| "isCompletion e = False"

text \<open>The model round trips among the events: one per turn.\<close>

definition turnsOf :: "event list \<Rightarrow> nat" where
  "turnsOf tr = length (filter isCompletion tr)"

text \<open>
  A cancelled tool call among the events: the approval hook \<open>h\<close>, asked about the tool call
  \<open>tc\<close> after the events \<open>tr'\<close>, said no, and that call of the hook is the last of the events
  \<open>T\<close>.
\<close>

definition declinedLast ::
  "World \<Rightarrow> (event list \<Rightarrow> string \<Rightarrow> args \<Rightarrow> bool) \<Rightarrow> ToolCall \<Rightarrow> event list \<Rightarrow> event list \<Rightarrow> bool" where
  "declinedLast W h tc tr' T =
     (let name = Name (Function tc);
          args = decodeArgs W (Arguments (Function tc))
      in \<not> h tr' name args \<and> T = tr' @ [CallOnToolCall name args])"

text \<open>
  A conversation with the events \<open>T\<close> was cancelled: a tool call that some answer of the
  model carried was declined by the agent's approval hook, as the last of the events.
\<close>

abbreviation cancelledRun :: "World \<Rightarrow> Agent \<Rightarrow> event list \<Rightarrow> bool" where
  "cancelledRun W a T \<equiv>
     (\<exists>h tr0 ms msg tc tr'. OnToolCall a = Some h \<and> ChatCompletion W tr0 ms = Inr msg
        \<and> tc \<in> set (ToolCalls msg) \<and> declinedLast W h tc tr' T)"

text \<open>
  The events of a pre-task up to the notification \<open>OnPreTaskEnd\<close>, which the runner sends
  after a cancelled call when that hook is set.
\<close>

definition beforeTaskEnd :: "Agent \<Rightarrow> event list \<Rightarrow> event list" where
  "beforeTaskEnd a T = (if OnPreTaskEnd a then butlast T else T)"


section \<open>agent.go: the pre-task runner of the revision with the shell subagent\<close>

text \<open>
  \<open>agent.go\<close> holds two revisions of the agent in which \<open>run_shell\<close> goes through a shell
  subagent. The text of \<open>runPreTasks\<close> is the same in both (lines 460-548 and 1122-1210):
  its loop has no turn counter, and it goes on until an answer without tool calls holds the
  task's \<open>DoneMarker\<close>. The functions it calls are modelled from the revision with sandbox
  support (\<open>ExecuteShellSubagent\<close> at lines 315-403, \<open>executeShellWithSandbox\<close> above).
\<close>

text \<open>
  \<open>strings.SplitN(s, sep, 2)\<close> for a separator that is not empty: the text before the first
  occurrence of \<open>sep\<close> and the text after it, or \<open>s\<close> alone when \<open>sep\<close> does not occur.
\<close>

fun splitFirst :: "string \<Rightarrow> string \<Rightarrow> (string \<times> string) option" where
  "splitFirst [] sep = None"
| "splitFirst (c # s) sep =
     (if HasPrefix (c # s) sep then Some ([], drop (length sep) (c # s))
      else (case splitFirst s sep of
              None \<Rightarrow> None
            | Some (before, after) \<Rightarrow> Some (c # before, after)))"

definition SplitN2 :: "string \<Rightarrow> string \<Rightarrow> string list" where
  "SplitN2 s sep = (case splitFirst s sep of None \<Rightarrow> [s] | Some (before, after) \<Rightarrow> [before, after])"

definition toolMessageFor :: "ToolCall \<Rightarrow> string \<Rightarrow> Message" where
  "toolMessageFor tc content =
     \<lparr> Role = ''tool'', Content = AString content, ToolCalls = [], ToolCallID = ID tc \<rparr>"

text \<open>\<open>if a.OnShellSubagentEnd != nil { a.OnShellSubagentEnd(result) }\<close>\<close>

definition notifySubagentEnd :: "Agent \<Rightarrow> ToolResult \<Rightarrow> event list \<Rightarrow> event list" where
  "notifySubagentEnd a result tr =
     (if OnShellSubagentEnd a then tr @ [CallOnShellSubagentEnd result] else tr)"

text \<open>The loop over the follow-up tool calls of the shell subagent, on its history (\<open>msgs\<close> in the source).\<close>

fun subagentToolCalls ::
  "World \<Rightarrow> Agent \<Rightarrow> ToolCall list \<Rightarrow> Message list \<Rightarrow> event list \<Rightarrow> Message list \<times> event list" where
  "subagentToolCalls W a [] ms tr = (ms, tr)"
| "subagentToolCalls W a (tc # rest) ms tr =
     (let args = decodeArgs W (Arguments (Function tc));
          cmd = stringAt args ''command'';
          (toolResult, tr1) = executeShellWithSandbox W a cmd args tr
      in if Output toolResult = ''cancelled by user''
         then subagentToolCalls W a rest (ms @ [toolMessageFor tc ''cancelled by user'']) tr1
         else
           (let tr2 = (if OnSubagentToolDone a
                       then tr1 @ [CallOnSubagentToolDone ''run_shell'' args toolResult] else tr1)
            in subagentToolCalls W a rest (ms @ [toolMessageFor tc (Output toolResult)]) tr2))"

text \<open>
  The loop of \<open>ExecuteShellSubagent\<close>, which has no bound on its rounds: \<open>None\<close> is a loop
  that never returns.
\<close>

partial_function (option) subagentLoop ::
  "World \<Rightarrow> Agent \<Rightarrow> Message list \<Rightarrow> event list \<Rightarrow> (ToolResult \<times> event list) option" where
  "subagentLoop W a ms tr =
     (let tr1 = tr @ [CallChatCompletionWithTools ms] in
      case ChatCompletionWithTools W tr ms of
        Inl e \<Rightarrow>
          (let errResult = \<lparr> Success = False, Output = [], Status = ''subagent error'',
                               Error = Some e, ExecMeta = None \<rparr>
           in Some (errResult, notifySubagentEnd a errResult tr1))
      | Inr msg \<Rightarrow>
          (let ms1 = ms @ [msg] in
           if length (ToolCalls msg) = 0 then
             (case Content msg of
                AString content \<Rightarrow>
                  if Contains content ''{{SHELL_DONE}}'' then
                    (let parts = SplitN2 content ''{{SHELL_DONE}}'';
                         finalResult =
                           (if length parts > 1
                            then \<lparr> Success = True, Output = TrimSpace (parts ! 1), Status = ''ok'',
                                   Error = None, ExecMeta = None \<rparr>
                            else \<lparr> Success = True, Output = content, Status = ''ok'',
                                   Error = None, ExecMeta = None \<rparr>)
                     in Some (finalResult, notifySubagentEnd a finalResult tr1))
                  else subagentLoop W a ms1 tr1
              | _ \<Rightarrow> subagentLoop W a ms1 tr1)
           else
             (case subagentToolCalls W a (ToolCalls msg) ms1 tr1 of
                (ms2, tr2) \<Rightarrow> subagentLoop W a ms2 tr2)))"

declare subagentLoop.simps [code]

definition ExecuteShellSubagent ::
  "World \<Rightarrow> Agent \<Rightarrow> string \<Rightarrow> string \<Rightarrow> string \<Rightarrow> string \<Rightarrow> event list
     \<Rightarrow> (ToolResult \<times> event list) option" where
  "ExecuteShellSubagent W a command description safety systemPrompt tr =
     (let tr0 = (if OnShellSubagentStart a then tr @ [CallOnShellSubagentStart systemPrompt] else tr);
          initialArgs = [(''command'', AString command), (''description'', AString description),
                         (''safety'', AString safety)];
          (result, tr1) = executeShellWithSandbox W a command initialArgs tr0
      in if Output result = ''cancelled by user''
         then Some (result, notifySubagentEnd a result tr1)
         else
           (let tr2 = (if OnSubagentToolDone a
                       then tr1 @ [CallOnSubagentToolDone ''run_shell'' initialArgs result] else tr1);
                ms = [\<lparr> Role = ''system'', Content = AString systemPrompt,
                           ToolCalls = [], ToolCallID = [] \<rparr>,
                        \<lparr> Role = ''user'',
                           Content = AString (''Command: '' @ command @ ''\<newline>\<newline>Output:\<newline>'' @ Output result),
                           ToolCalls = [], ToolCallID = [] \<rparr>]
            in subagentLoop W a ms tr2))"

text \<open>
  The loop over the tool calls in the revision of \<open>runPreTasks\<close> with the shell subagent: the
  results go to the task's history at once.
\<close>

fun runToolCalls_subagent ::
  "World \<Rightarrow> Agent \<Rightarrow> ToolCall list \<Rightarrow> Message list \<Rightarrow> event list
     \<Rightarrow> (bool \<times> Message list \<times> event list) option" where
  "runToolCalls_subagent W a [] taskMsgs tr = Some (False, taskMsgs, tr)"
| "runToolCalls_subagent W a (tc # rest) taskMsgs tr =
     (let name = Name (Function tc);
          args = decodeArgs W (Arguments (Function tc));
          (approved, tr1) = askOnToolCall a name args tr
      in if \<not> approved then Some (True, taskMsgs, tr1)
         else
           (case (if name = ''run_shell''
                  then ExecuteShellSubagent W a (stringAt args ''command'')
                         (stringAt args ''description'') (stringAt args ''safety'')
                         (stringAt args ''system_prompt'') tr1
                  else Some (ExecuteTool W tr1 name args, tr1 @ [CallExecuteTool name args])) of
              None \<Rightarrow> None
            | Some (result, tr2) \<Rightarrow>
                (let tr3 = (if OnToolDone a then tr2 @ [CallOnToolDone name args result] else tr2)
                 in runToolCalls_subagent W a rest
                      (taskMsgs @ [toolMessageFor tc (Output result)]) tr3)))"

text \<open>
  The loop of one task in that revision, with no bound on its rounds: \<open>None\<close> is a loop that
  never returns, \<open>Some (None, tr)\<close> is leaving the loop by \<open>break\<close>, \<open>Some (Some e, tr)\<close> is
  \<open>return e\<close>.
\<close>

partial_function (option) preTaskLoop_marker ::
  "World \<Rightarrow> Agent \<Rightarrow> PreTaskConfig \<Rightarrow> Message list \<Rightarrow> event list
     \<Rightarrow> (goerror option \<times> event list) option" where
  "preTaskLoop_marker W a task taskMsgs tr =
     (let tr1 = tr @ [CallChatCompletion taskMsgs] in
      case ChatCompletion W tr taskMsgs of
        Inl e \<Rightarrow> Some (Some e, tr1)
      | Inr msg \<Rightarrow>
          (let taskMsgs1 = taskMsgs @ [msg] in
           if length (ToolCalls msg) = 0 then
             (case Content msg of
                AString content \<Rightarrow>
                  (let tr2 = (if OnMessage a \<and> content \<noteq> [] then tr1 @ [CallOnMessage content]
                              else tr1)
                   in if Contains content (DoneMarker task) then Some (None, tr2)
                      else preTaskLoop_marker W a task taskMsgs1 tr2)
              | _ \<Rightarrow> preTaskLoop_marker W a task taskMsgs1 tr1)
           else
             (case runToolCalls_subagent W a (ToolCalls msg) taskMsgs1 tr1 of
                None \<Rightarrow> None
              | Some (cancelled, taskMsgs2, tr2) \<Rightarrow>
                  if cancelled
                  then Some (Some ErrToolCancelled,
                             (if OnPreTaskEnd a then tr2 @ [CallOnPreTaskEnd (TaskName task)] else tr2))
                  else preTaskLoop_marker W a task taskMsgs2 tr2)))"

declare preTaskLoop_marker.simps [code]

fun runTasks_marker ::
  "World \<Rightarrow> Agent \<Rightarrow> PreTaskConfig list \<Rightarrow> event list
     \<Rightarrow> (goerror option \<times> event list) option" where
  "runTasks_marker W a [] tr = Some (None, tr)"
| "runTasks_marker W a (task # rest) tr =
     (let tr0 = (if OnPreTaskStart a then tr @ [CallOnPreTaskStart (TaskName task)] else tr);
          taskMsgs = [\<lparr> Role = ''system'', Content = AString (SystemPrompt task),
                         ToolCalls = [], ToolCallID = [] \<rparr>];
          input = Input task;
          input = (if input = [] then ''Begin'' else input);
          taskMsgs = taskMsgs @ [\<lparr> Role = ''user'', Content = AString input,
                                    ToolCalls = [], ToolCallID = [] \<rparr>]
      in case preTaskLoop_marker W a task taskMsgs tr0 of
           None \<Rightarrow> None
         | Some (Some e, tr1) \<Rightarrow> Some (Some e, tr1)
         | Some (None, tr1) \<Rightarrow>
             runTasks_marker W a rest
               (if OnPreTaskEnd a then tr1 @ [CallOnPreTaskEnd (TaskName task)] else tr1))"

definition runPreTasks_marker ::
  "World \<Rightarrow> Agent \<Rightarrow> event list \<Rightarrow> (goerror option \<times> event list) option" where
  "runPreTasks_marker W a tr = runTasks_marker W a (PreTasks (config a)) tr"


section \<open>Example worlds and agents\<close>

text \<open>Concrete inputs, for the theorems below to be run on.\<close>

definition exampleHost :: Host where
  "exampleHost = \<lparr> sandboxAvailable = True, Getwd = ''/work'', TempDir = ''/tmp'' \<rparr>"

text \<open>
  A world whose sandbox blocks every command (exit 1, output \<open>Sandbox: deny\<close>), where the
  same command succeeds outside the sandbox, and whose model is out of reach.
\<close>

definition deniedWorld :: World where
  "deniedWorld =
     \<lparr> ChatCompletion = (\<lambda>tr ms. Inl (TransportError ''offline'')),
       ChatCompletionWithTools = (\<lambda>tr ms. Inl (TransportError ''offline'')),
       CombinedOutput = (\<lambda>tr argv.
         case argv of
           [] \<Rightarrow> \<lparr> out = [], err = Some (ProcessError ''no program''), elapsed = ''0.0'' \<rparr>
         | p # rest \<Rightarrow>
             if p = ''sandbox-exec''
             then \<lparr> out = ''Sandbox: deny'', err = Some (ExitError 1), elapsed = ''0.1'' \<rparr>
             else \<lparr> out = ''done'', err = None, elapsed = ''0.2'' \<rparr>),
       ExecuteTool = (\<lambda>tr name args.
         \<lparr> Success = True, Output = ''ok'', Status = ''written'', Error = None, ExecMeta = None \<rparr>),
       Unmarshal = (\<lambda>s. None),
       host = exampleHost,
       defaultExecutor = Some (SandboxedExecutor exampleConfig) \<rparr>"

text \<open>The same world with confinement disabled.\<close>

definition openWorld :: World where
  "openWorld = deniedWorld \<lparr> defaultExecutor := Some PassthroughExecutor \<rparr>"

definition plainAgent :: Agent where
  "plainAgent =
     \<lparr> config = \<lparr> PreTasks = [], Sandbox = exampleConfig \<rparr>,
       msgs = [], preTasksDone = False,
       OnToolCall = None, OnToolDone = False, OnMessage = False,
       OnPreTaskStart = False, OnPreTaskEnd = False,
       OnSandboxFallback = None, OnSubagentToolCall = None,
       OnSubagentToolDone = False, OnShellSubagentStart = False, OnShellSubagentEnd = False \<rparr>"

definition deniedResult :: ToolResult where
  "deniedResult =
     \<lparr> Success = False, Output = ''Sandbox: deny'', Status = ''sandbox blocked (0.1s)'',
       Error = Some (ExitError 1),
       ExecMeta = Some \<lparr> Sandboxed = True, SandboxError = True,
                         SandboxReason = ''Sandbox: deny'' \<rparr> \<rparr>"

definition doneResult :: ToolResult where
  "doneResult =
     \<lparr> Success = True, Output = ''done'', Status = ''ok (0.2s)'', Error = None,
       ExecMeta = Some \<lparr> Sandboxed = False, SandboxError = False, SandboxReason = [] \<rparr> \<rparr>"

definition sandboxArgv :: "string \<Rightarrow> string list" where
  "sandboxArgv command = [''sandbox-exec'', ''-p'', generateProfile exampleConfig, ''sh'', ''-c'', command]"


text \<open>A model that answers every request with the same two tool calls.\<close>

definition toolMessage :: Message where
  "toolMessage =
     \<lparr> Role = ''assistant'', Content = AString ''working'',
       ToolCalls = [\<lparr> ID = ''call_1'', Type = ''function'',
                      Function = \<lparr> Name = ''write_file'', Arguments = ''{}'' \<rparr> \<rparr>,
                    \<lparr> ID = ''call_2'', Type = ''function'',
                      Function = \<lparr> Name = ''run_shell'', Arguments = ''{}'' \<rparr> \<rparr>],
       ToolCallID = [] \<rparr>"

definition toolWorld :: World where
  "toolWorld = openWorld \<lparr> ChatCompletion := (\<lambda>tr ms. Inr toolMessage) \<rparr>"

text \<open>A model that answers every request with one call of \<open>write_file\<close>.\<close>

definition fileMessage :: Message where
  "fileMessage =
     \<lparr> Role = ''assistant'', Content = AString ''writing'',
       ToolCalls = [\<lparr> ID = ''call_1'', Type = ''function'',
                      Function = \<lparr> Name = ''write_file'', Arguments = ''{}'' \<rparr> \<rparr>],
       ToolCallID = [] \<rparr>"

definition fileWorld :: World where
  "fileWorld = openWorld \<lparr> ChatCompletion := (\<lambda>tr ms. Inr fileMessage) \<rparr>"

text \<open>An agent with one user message in its history, whose approval hook declines \<open>run_shell\<close>.\<close>

definition guardedAgent :: Agent where
  "guardedAgent =
     plainAgent \<lparr> msgs := [\<lparr> Role = ''user'', Content = AString ''go'',
                                ToolCalls = [], ToolCallID = [] \<rparr>],
                  OnToolCall := Some (\<lambda>tr name args. name \<noteq> ''run_shell'') \<rparr>"

text \<open>
  A model whose first answer is a text without the marker and whose later answers are the
  marker, and an agent with one pre-task whose marker that is.
\<close>

definition textMessage :: "string \<Rightarrow> Message" where
  "textMessage s = \<lparr> Role = ''assistant'', Content = AString s, ToolCalls = [], ToolCallID = [] \<rparr>"

definition markerWorld :: World where
  "markerWorld =
     openWorld \<lparr> ChatCompletion := (\<lambda>tr ms.
        if turnsOf tr = 0 then Inr (textMessage ''still exploring'')
        else Inr (textMessage ''{{DONE}}'')) \<rparr>"

definition exploringTask :: PreTaskConfig where
  "exploringTask =
     \<lparr> TaskName = ''exploring'', SystemPrompt = ''document the project'', Input = ''Begin'',
       DoneMarker = ''{{DONE}}'' \<rparr>"

definition exploringAgent :: Agent where
  "exploringAgent = plainAgent \<lparr> config := \<lparr> PreTasks = [exploringTask], Sandbox = exampleConfig \<rparr> \<rparr>"

definition exploringHistory :: "Message list" where
  "exploringHistory =
     [\<lparr> Role = ''system'', Content = AString ''document the project'', ToolCalls = [], ToolCallID = [] \<rparr>,
      \<lparr> Role = ''user'', Content = AString ''Begin'', ToolCalls = [], ToolCallID = [] \<rparr>]"


section \<open>The fallback negotiators\<close>

lemma example_denial:
  "isSandboxDenial ''Sandbox: deny'' e"
  "extractSandboxReason ''Sandbox: deny'' = ''Sandbox: deny''"
  by (simp_all add: isSandboxDenial_def extractSandboxReason_def ToLower_def toLowerByte_def isASCII_def)

lemma deniedWorld_executor: "GetExecutor deniedWorld = SandboxedExecutor exampleConfig"
  by (simp add: GetExecutor_def deniedWorld_def)

lemma deniedWorld_CombinedOutput:
  "CombinedOutput deniedWorld tr (''sandbox-exec'' # rest)
     = \<lparr> out = ''Sandbox: deny'', err = Some (ExitError 1), elapsed = ''0.1'' \<rparr>"
  "CombinedOutput deniedWorld tr (''sh'' # rest)
     = \<lparr> out = ''done'', err = None, elapsed = ''0.2'' \<rparr>"
  by (simp_all add: deniedWorld_def)

lemma openWorld_CombinedOutput:
  "CombinedOutput openWorld = CombinedOutput deniedWorld"
  by (simp add: openWorld_def)

lemma deniedWorld_ExecuteShell:
  "ExecuteShell deniedWorld command tr = (deniedResult, tr @ [Exec (sandboxArgv command)])"
  by (simp add: ExecuteShell_def Run_def deniedWorld_executor SandboxedExecutor_Run_def
      Let_def example_denial deniedResult_def sandboxArgv_def deniedWorld_CombinedOutput)

lemma deniedWorld_unsandboxed:
  "ExecuteShellUnsandboxed deniedWorld command tr = (doneResult, tr @ [Exec [''sh'', ''-c'', command]])"
  by (simp add: ExecuteShellUnsandboxed_def PassthroughExecutor_Run_def Let_def doneResult_def
      deniedWorld_CombinedOutput)

lemma openWorld_disabled: "\<not> IsSandboxEnabled openWorld"
  by (simp add: IsSandboxEnabled_def GetExecutor_def openWorld_def)

lemma openWorld_unsandboxed:
  "ExecuteShellUnsandboxed openWorld command tr = (doneResult, tr @ [Exec [''sh'', ''-c'', command]])"
  by (simp add: ExecuteShellUnsandboxed_def PassthroughExecutor_Run_def Let_def doneResult_def
      openWorld_CombinedOutput deniedWorld_CombinedOutput)

lemma deniedResult_blocked: "sandboxBlocked deniedResult" "reasonOf deniedResult = ''Sandbox: deny''"
  by (simp_all add: sandboxBlocked_def reasonOf_def deniedResult_def)

lemma ExecuteShellUnsandboxed_trace:
  "snd (ExecuteShellUnsandboxed W command tr) = tr @ [Exec [''sh'', ''-c'', command]]"
  by (simp add: ExecuteShellUnsandboxed_def PassthroughExecutor_Run_def Let_def split: option.splits)

lemma ExecuteShellUnsandboxed_meta:
  "ExecMeta (fst (ExecuteShellUnsandboxed W command tr))
     = Some \<lparr> Sandboxed = False, SandboxError = False, SandboxReason = [] \<rparr>"
  by (simp add: ExecuteShellUnsandboxed_def PassthroughExecutor_Run_def Let_def split: option.splits)

lemma SandboxedExecutor_Run_trace:
  "snd (SandboxedExecutor_Run W cfg command tr)
     = tr @ [Exec [''sandbox-exec'', ''-p'', generateProfile cfg, ''sh'', ''-c'', command]]"
  by (simp add: SandboxedExecutor_Run_def Let_def split: option.splits)

lemma ExecuteShell_sandboxed_trace:
  assumes "GetExecutor W = SandboxedExecutor cfg"
  shows "snd (ExecuteShell W command tr)
     = tr @ [Exec [''sandbox-exec'', ''-p'', generateProfile cfg, ''sh'', ''-c'', command]]"
  by (simp add: ExecuteShell_def Run_def assms case_prod_beta SandboxedExecutor_Run_trace)

lemma IsSandboxEnabled_sandboxed:
  "GetExecutor W = SandboxedExecutor cfg \<Longrightarrow> IsSandboxEnabled W"
  by (simp add: IsSandboxEnabled_def)

text \<open>
  C4, as amended. \<open>FallbackOutsideSandbox\<close> is set, in the configuration of the executor and
  in the agent's, and the confined attempt of \<open>command\<close> came back as a denial. Then both
  negotiators call the fallback hook, when there is one, once with the command and the
  reason of the denial; when it approves they run the same command text through the
  unconfined executor (\<open>sh -c command\<close>) and return that result, whose metadata says it was
  not sandboxed; with no hook both return the denial as it is. When the hook declines, the
  package function \<open>ExecuteShellWithSandbox\<close> returns the denial as it is, and the agent's
  method \<open>executeShellWithSandbox\<close> returns the fixed result "cancelled by user".
\<close>

theorem fallback_after_denial:
  assumes enabled: "GetExecutor W = SandboxedExecutor cfg"
      and flag: "FallbackOutsideSandbox cfg" "FallbackOutsideSandbox (Sandbox (config a))"
      and denial: "ExecuteShell W command tr = (denial, tr1)"
      and blocked: "sandboxBlocked denial"
  shows
    "tr1 = tr @ [Exec [''sandbox-exec'', ''-p'', generateProfile cfg, ''sh'', ''-c'', command]]
     \<and> ExecuteShellWithSandbox W command onFallback tr =
         (case onFallback of
            None \<Rightarrow> (denial, tr1)
          | Some f \<Rightarrow>
              if f tr1 command (reasonOf denial)
              then ExecuteShellUnsandboxed W command
                     (tr1 @ [CallOnSandboxFallback command (reasonOf denial)])
              else (denial, tr1 @ [CallOnSandboxFallback command (reasonOf denial)]))
     \<and> executeShellWithSandbox W a command args tr =
         (case OnSandboxFallback a of
            None \<Rightarrow> (denial, tr1)
          | Some f \<Rightarrow>
              if f tr1 command (reasonOf denial)
              then ExecuteShellUnsandboxed W command
                     (tr1 @ [CallOnSandboxFallback command (reasonOf denial)])
              else (cancelledResult, tr1 @ [CallOnSandboxFallback command (reasonOf denial)]))
     \<and> snd (ExecuteShellUnsandboxed W command tr2) = tr2 @ [Exec [''sh'', ''-c'', command]]
     \<and> ExecMeta (fst (ExecuteShellUnsandboxed W command tr2))
         = Some \<lparr> Sandboxed = False, SandboxError = False, SandboxReason = [] \<rparr>"
proof -
  have on: "IsSandboxEnabled W"
    using enabled by (rule IsSandboxEnabled_sandboxed)
  have attempt: "tr1 = tr @ [Exec [''sandbox-exec'', ''-p'', generateProfile cfg, ''sh'', ''-c'', command]]"
    using ExecuteShell_sandboxed_trace [OF enabled, of command tr] denial by simp
  have pkg: "ExecuteShellWithSandbox W command onFallback tr =
         (case onFallback of
            None \<Rightarrow> (denial, tr1)
          | Some f \<Rightarrow>
              if f tr1 command (reasonOf denial)
              then ExecuteShellUnsandboxed W command
                     (tr1 @ [CallOnSandboxFallback command (reasonOf denial)])
              else (denial, tr1 @ [CallOnSandboxFallback command (reasonOf denial)]))"
    by (simp add: ExecuteShellWithSandbox_def on denial blocked Let_def split: option.splits)
  have meth: "executeShellWithSandbox W a command args tr =
         (case OnSandboxFallback a of
            None \<Rightarrow> (denial, tr1)
          | Some f \<Rightarrow>
              if f tr1 command (reasonOf denial)
              then ExecuteShellUnsandboxed W command
                     (tr1 @ [CallOnSandboxFallback command (reasonOf denial)])
              else (cancelledResult, tr1 @ [CallOnSandboxFallback command (reasonOf denial)]))"
    by (simp add: executeShellWithSandbox_def on denial blocked flag(2) Let_def split: option.splits)
  from attempt pkg meth ExecuteShellUnsandboxed_trace [of W command tr2]
    ExecuteShellUnsandboxed_meta [of W command tr2]
  show ?thesis by blast
qed

theorem fallback_after_denial_witness:
  "ExecuteShellWithSandbox deniedWorld ''touch /x'' (Some (\<lambda>tr c r. True)) []
     = (doneResult, [Exec (sandboxArgv ''touch /x''),
                     CallOnSandboxFallback ''touch /x'' ''Sandbox: deny'',
                     Exec [''sh'', ''-c'', ''touch /x'']])
   \<and> ExecuteShellWithSandbox deniedWorld ''touch /x'' (Some (\<lambda>tr c r. False)) []
     = (deniedResult, [Exec (sandboxArgv ''touch /x''),
                       CallOnSandboxFallback ''touch /x'' ''Sandbox: deny''])
   \<and> ExecuteShellWithSandbox deniedWorld ''touch /x'' None []
     = (deniedResult, [Exec (sandboxArgv ''touch /x'')])
   \<and> executeShellWithSandbox deniedWorld
       (plainAgent \<lparr> OnSandboxFallback := Some (\<lambda>tr c r. True) \<rparr>) ''touch /x'' [] []
     = (doneResult, [Exec (sandboxArgv ''touch /x''),
                     CallOnSandboxFallback ''touch /x'' ''Sandbox: deny'',
                     Exec [''sh'', ''-c'', ''touch /x'']])
   \<and> executeShellWithSandbox deniedWorld plainAgent ''touch /x'' [] []
     = (deniedResult, [Exec (sandboxArgv ''touch /x'')])"
proof -
  have attempt: "ExecuteShell deniedWorld ''touch /x'' [] = (deniedResult, [Exec (sandboxArgv ''touch /x'')])"
    by (simp add: deniedWorld_ExecuteShell)
  have flag: "FallbackOutsideSandbox exampleConfig"
    by (simp add: exampleConfig_def)
  have flags: "FallbackOutsideSandbox (Sandbox (config plainAgent))"
    "FallbackOutsideSandbox (Sandbox (config (plainAgent \<lparr> OnSandboxFallback := Some (\<lambda>tr c r. True) \<rparr>)))"
    by (simp_all add: plainAgent_def exampleConfig_def)
  show ?thesis
    using fallback_after_denial [OF deniedWorld_executor flag flags(1) attempt deniedResult_blocked(1),
        of "Some (\<lambda>tr c r. True)"]
      fallback_after_denial [OF deniedWorld_executor flag flags(1) attempt deniedResult_blocked(1),
        of "Some (\<lambda>tr c r. False)"]
      fallback_after_denial [OF deniedWorld_executor flag flags(2) attempt deniedResult_blocked(1),
        of None]
    by (simp add: deniedResult_blocked deniedWorld_unsandboxed plainAgent_def)
qed

text \<open>
  With \<open>FallbackOutsideSandbox\<close> set, the agent's method does not return the denial when the
  fallback hook declines: it returns the fixed result "cancelled by user".
\<close>

theorem fallback_declined_counterexample:
  "FallbackOutsideSandbox
     (Sandbox (config (plainAgent \<lparr> OnSandboxFallback := Some (\<lambda>tr c r. False) \<rparr>)))
   \<and> fst (ExecuteShell deniedWorld ''touch /x'' []) = deniedResult
   \<and> fst (executeShellWithSandbox deniedWorld
            (plainAgent \<lparr> OnSandboxFallback := Some (\<lambda>tr c r. False) \<rparr>) ''touch /x'' [] [])
       = cancelledResult
   \<and> cancelledResult \<noteq> deniedResult"
  by (simp add: executeShellWithSandbox_def IsSandboxEnabled_def deniedWorld_executor
      deniedWorld_ExecuteShell deniedResult_blocked Let_def plainAgent_def exampleConfig_def)
    (simp add: cancelledResult_def deniedResult_def)

text \<open>
  C5, as amended. With confinement disabled, the agent's method \<open>executeShellWithSandbox\<close>
  asks \<open>OnSubagentToolCall\<close>, when that hook is set, exactly once and before anything is
  executed; the command runs (unconfined, once) only when the hook approves, and a refusal
  gives the result "cancelled by user" with nothing executed; with no hook set the command
  runs at once. The package function \<open>ExecuteShellWithSandbox\<close> asks no hook at all and runs
  the command at once. Neither asks the fallback hook.
\<close>

theorem approval_when_disabled:
  assumes disabled: "\<not> IsSandboxEnabled W"
  shows
    "ExecuteShellWithSandbox W command onFallback tr = ExecuteShellUnsandboxed W command tr
     \<and> snd (ExecuteShellWithSandbox W command onFallback tr) = tr @ [Exec [''sh'', ''-c'', command]]
     \<and> (case OnSubagentToolCall a of
          None \<Rightarrow>
            executeShellWithSandbox W a command args tr = ExecuteShellUnsandboxed W command tr
        | Some g \<Rightarrow>
            (let meta = \<lparr> Sandboxed = False, SandboxError = False, SandboxReason = [] \<rparr>;
                 asked = tr @ [CallOnSubagentToolCall ''run_shell'' args meta] in
             if g tr ''run_shell'' args meta
             then executeShellWithSandbox W a command args tr
                    = ExecuteShellUnsandboxed W command asked
                  \<and> snd (executeShellWithSandbox W a command args tr)
                    = asked @ [Exec [''sh'', ''-c'', command]]
             else executeShellWithSandbox W a command args tr = (cancelledResult, asked)))"
  using disabled
  by (simp add: ExecuteShellWithSandbox_def executeShellWithSandbox_def
      ExecuteShellUnsandboxed_trace Let_def split: option.splits)

theorem approval_when_disabled_witness:
  "executeShellWithSandbox openWorld
       (plainAgent \<lparr> OnSubagentToolCall := Some (\<lambda>tr n a m. True) \<rparr>) ''echo hello'' [] []
     = (doneResult,
        [CallOnSubagentToolCall ''run_shell'' []
           \<lparr> Sandboxed = False, SandboxError = False, SandboxReason = [] \<rparr>,
         Exec [''sh'', ''-c'', ''echo hello'']])
   \<and> executeShellWithSandbox openWorld
       (plainAgent \<lparr> OnSubagentToolCall := Some (\<lambda>tr n a m. False) \<rparr>) ''echo hello'' [] []
     = (cancelledResult,
        [CallOnSubagentToolCall ''run_shell'' []
           \<lparr> Sandboxed = False, SandboxError = False, SandboxReason = [] \<rparr>])"
  using approval_when_disabled [OF openWorld_disabled,
      of "''echo hello''" None "[]" "plainAgent \<lparr> OnSubagentToolCall := Some (\<lambda>tr n a m. True) \<rparr>" "[]"]
    approval_when_disabled [OF openWorld_disabled,
      of "''echo hello''" None "[]" "plainAgent \<lparr> OnSubagentToolCall := Some (\<lambda>tr n a m. False) \<rparr>" "[]"]
  by (simp add: openWorld_unsandboxed Let_def)

text \<open>
  With confinement disabled the package function runs the command though its only hook
  would refuse, and the agent's method runs it with no hook set: in both the command is
  executed and no hook was asked.
\<close>

theorem approval_when_disabled_counterexample:
  "ExecuteShellWithSandbox openWorld ''echo hello'' (Some (\<lambda>tr c r. False)) []
     = (doneResult, [Exec [''sh'', ''-c'', ''echo hello'']])
   \<and> executeShellWithSandbox openWorld plainAgent ''echo hello'' [] []
     = (doneResult, [Exec [''sh'', ''-c'', ''echo hello'']])"
  by (simp add: ExecuteShellWithSandbox_def executeShellWithSandbox_def openWorld_disabled
      openWorld_unsandboxed plainAgent_def)


section \<open>The turn loop: rollback and the turn cap\<close>

lemma turnsOf_simps [simp]:
  "turnsOf [] = 0"
  "turnsOf (e # tr) = (if isCompletion e then 1 else 0) + turnsOf tr"
  "turnsOf (tr @ tr') = turnsOf tr + turnsOf tr'"
  by (simp_all add: turnsOf_def)

lemma ExecuteShell_trace: "\<exists>argv. snd (ExecuteShell W command tr) = tr @ [Exec argv]"
  by (cases "GetExecutor W")
    (simp_all add: ExecuteShell_def Run_def case_prod_beta SandboxedExecutor_Run_def
      PassthroughExecutor_Run_def Let_def split: option.splits)

lemma ExecuteShell_turns: "turnsOf (snd (ExecuteShell W command tr)) = turnsOf tr"
  using ExecuteShell_trace [of W command tr] by auto

lemma ExecuteShellUnsandboxed_turns:
  "turnsOf (snd (ExecuteShellUnsandboxed W command tr)) = turnsOf tr"
  by (simp add: ExecuteShellUnsandboxed_trace)

lemma ExecuteShellWithSandbox_turns:
  "turnsOf (snd (ExecuteShellWithSandbox W command onFallback tr)) = turnsOf tr"
proof -
  obtain result tr1 where r: "ExecuteShell W command tr = (result, tr1)"
    by (cases "ExecuteShell W command tr")
  then have "turnsOf tr1 = turnsOf tr"
    using ExecuteShell_turns [of W command tr] by simp
  then show ?thesis
    by (simp add: ExecuteShellWithSandbox_def r Let_def ExecuteShellUnsandboxed_turns
        split: option.splits)
qed

lemma askOnToolCall_turns: "turnsOf (snd (askOnToolCall a name args tr)) = turnsOf tr"
  by (simp add: askOnToolCall_def split: option.splits)

lemma runToolCalls_turns:
  "turnsOf (snd (snd (runToolCalls W a tcs rs tr))) = turnsOf tr"
proof (induction tcs arbitrary: rs tr)
  case Nil
  then show ?case by simp
next
  case (Cons tc rest)
  obtain ok tr1 where ask: "askOnToolCall a (Name (Function tc))
      (decodeArgs W (Arguments (Function tc))) tr = (ok, tr1)"
    by (cases "askOnToolCall a (Name (Function tc)) (decodeArgs W (Arguments (Function tc))) tr")
  then have t1: "turnsOf tr1 = turnsOf tr"
    using askOnToolCall_turns [of a "Name (Function tc)" "decodeArgs W (Arguments (Function tc))" tr]
    by simp
  obtain result tr2 where sh: "ExecuteShellWithSandbox W
      (stringAt (decodeArgs W (Arguments (Function tc))) ''command'') (OnSandboxFallback a) tr1
      = (result, tr2)"
    by (cases "ExecuteShellWithSandbox W
      (stringAt (decodeArgs W (Arguments (Function tc))) ''command'') (OnSandboxFallback a) tr1")
  then have t2: "turnsOf tr2 = turnsOf tr1"
    using ExecuteShellWithSandbox_turns [of W _ "OnSandboxFallback a" tr1] by (metis snd_conv)
  show ?case
    by (simp add: ask sh Let_def Cons.IH t1 t2)
qed

text \<open>
  In the turn loop the approval hook \<open>OnToolCall\<close>, when it is set, is asked once before a
  \<open>run_shell\<close> call is executed, whatever the state of confinement; with confinement
  disabled an approved call then runs unconfined.
\<close>

lemma runToolCalls_asks_before_shell:
  assumes disabled: "\<not> IsSandboxEnabled W"
      and shell: "Name (Function tc) = ''run_shell''"
      and hook: "OnToolCall a = Some h"
  shows "snd (snd (runToolCalls W a [tc] [] tr)) =
         (let args = decodeArgs W (Arguments (Function tc));
              asked = tr @ [CallOnToolCall ''run_shell'' args];
              cmd = stringAt args ''command''
          in if h tr ''run_shell'' args
             then asked @ [Exec [''sh'', ''-c'', cmd]]
                  @ (if OnToolDone a
                     then [CallOnToolDone ''run_shell'' args
                             (fst (ExecuteShellUnsandboxed W cmd asked))]
                     else [])
             else asked)"
  using ExecuteShellUnsandboxed_trace
    [of W "stringAt (decodeArgs W (Arguments (Function tc))) ''command''"
        "tr @ [CallOnToolCall ''run_shell'' (decodeArgs W (Arguments (Function tc)))]"]
  by (simp add: shell hook disabled askOnToolCall_def ExecuteShellWithSandbox_def Let_def
      case_prod_beta)

lemma runToolCalls_declined:
  assumes hook: "OnToolCall a = Some h"
      and mem: "tc \<in> set tcs"
      and no: "\<And>tr. \<not> h tr (Name (Function tc)) (decodeArgs W (Arguments (Function tc)))"
  shows "fst (runToolCalls W a tcs rs tr)"
  using mem
proof (induction tcs arbitrary: rs tr)
  case Nil
  then show ?case by simp
next
  case (Cons tc' rest)
  show ?case
  proof (cases "fst (askOnToolCall a (Name (Function tc')) (decodeArgs W (Arguments (Function tc'))) tr)")
    case False
    then show ?thesis by (simp add: Let_def case_prod_beta)
  next
    case True
    then have "tc' \<noteq> tc"
      using no hook by (auto simp add: askOnToolCall_def)
    with Cons.prems have "tc \<in> set rest" by simp
    then show ?thesis
      using True by (simp add: Let_def case_prod_beta Cons.IH)
  qed
qed

text \<open>
  C3. \<open>H\<close> is the history \<open>msgs a\<close> at the start of a turn. The model answers with tool
  calls, and the approval hook declines one of them when it is asked (the loop over the batch
  ends with \<open>cancelled\<close> set). Then the turn ends the conversation with no answer and no
  error, and the agent after the turn is the agent before it: its history is \<open>H\<close>, of the
  same length and content, with neither the assistant message nor any tool message of the
  batch in it.
\<close>

theorem cancelled_turn_restores_history:
  assumes answer: "ChatCompletion W tr (msgs a) = Inr msg"
      and calls: "ToolCalls msg \<noteq> []"
      and declined: "fst (runToolCalls W (a \<lparr> msgs := msgs a @ [msg] \<rparr>) (ToolCalls msg) []
                       (notifyMessage a (messageContent (Some msg))
                          (tr @ [CallChatCompletion (msgs a)])))"
  shows "fst (chatTurn W a tr) = Some (Inr [])
         \<and> fst (snd (chatTurn W a tr)) = a
         \<and> msgs (fst (snd (chatTurn W a tr))) = msgs a
         \<and> length (msgs (fst (snd (chatTurn W a tr)))) = length (msgs a)"
proof -
  have same: "notifyMessage (a \<lparr> msgs := msgs a @ [msg] \<rparr>) c t = notifyMessage a c t" for c t
    by (simp add: notifyMessage_def)
  have "fst (chatTurn W a tr) = Some (Inr []) \<and> fst (snd (chatTurn W a tr)) = a"
    using calls declined
    by (simp add: chatTurn_def answer Let_def same case_prod_beta)
  then show ?thesis by simp
qed

theorem cancelled_turn_restores_history_witness:
  "fst (chatTurn toolWorld guardedAgent []) = Some (Inr [])
   \<and> msgs (fst (snd (chatTurn toolWorld guardedAgent [])))
       = [\<lparr> Role = ''user'', Content = AString ''go'', ToolCalls = [], ToolCallID = [] \<rparr>]
   \<and> fst (runToolCalls toolWorld guardedAgent (ToolCalls toolMessage) [] [])"
proof -
  have answer: "ChatCompletion toolWorld [] (msgs guardedAgent) = Inr toolMessage"
    by (simp add: toolWorld_def)
  have calls: "ToolCalls toolMessage \<noteq> []"
    by (simp add: toolMessage_def)
  have declined: "fst (runToolCalls toolWorld a (ToolCalls toolMessage) [] tr)"
    if "OnToolCall a = Some (\<lambda>tr name args. name \<noteq> ''run_shell'')" for a tr
    by (rule runToolCalls_declined [OF that, where tc = "ToolCalls toolMessage ! 1"])
      (simp_all add: toolMessage_def)
  have hook: "OnToolCall guardedAgent = Some (\<lambda>tr name args. name \<noteq> ''run_shell'')"
    by (simp add: guardedAgent_def)
  have hook1: "OnToolCall (guardedAgent \<lparr> msgs := msgs guardedAgent @ [toolMessage] \<rparr>)
      = Some (\<lambda>tr name args. name \<noteq> ''run_shell'')"
    by (simp add: guardedAgent_def)
  show ?thesis
    using cancelled_turn_restores_history [OF answer calls declined [OF hook1]] declined [OF hook]
    by (simp add: guardedAgent_def plainAgent_def)
qed

lemma runToolCalls_cancelled:
  "fst (runToolCalls W a tcs rs tr) \<Longrightarrow>
   \<exists>h tc tr'. OnToolCall a = Some h \<and> tc \<in> set tcs
     \<and> declinedLast W h tc tr' (snd (snd (runToolCalls W a tcs rs tr)))"
proof (induction tcs arbitrary: rs tr)
  case Nil
  then show ?case by simp
next
  case (Cons tc rest)
  let ?name = "Name (Function tc)"
  let ?args = "decodeArgs W (Arguments (Function tc))"
  show ?case
  proof (cases "fst (askOnToolCall a ?name ?args tr)")
    case False
    then obtain h where hook: "OnToolCall a = Some h" and no: "\<not> h tr ?name ?args"
      by (auto simp add: askOnToolCall_def split: option.splits)
    have "snd (snd (runToolCalls W a (tc # rest) rs tr)) = tr @ [CallOnToolCall ?name ?args]"
      using no by (simp add: askOnToolCall_def hook Let_def)
    then have "declinedLast W h tc tr (snd (snd (runToolCalls W a (tc # rest) rs tr)))"
      using no by (simp add: declinedLast_def Let_def)
    with hook show ?thesis by auto
  next
    case True
    obtain rs' tr' where step: "runToolCalls W a (tc # rest) rs tr = runToolCalls W a rest rs' tr'"
      using True by (simp add: Let_def case_prod_beta)
    with Cons.prems have "fst (runToolCalls W a rest rs' tr')" by simp
    from Cons.IH [OF this] obtain h tc' tr'' where
      "OnToolCall a = Some h" "tc' \<in> set rest"
      "declinedLast W h tc' tr'' (snd (snd (runToolCalls W a rest rs' tr')))"
      by blast
    then show ?thesis
      unfolding step by auto
  qed
qed

lemma chatTurn_outcome:
  assumes tools: "\<forall>tr ms. \<exists>msg. ChatCompletion W tr ms = Inr msg \<and> ToolCalls msg \<noteq> []"
  shows "(\<exists>a' tr'. chatTurn W a tr = (None, a', tr') \<and> OnToolCall a' = OnToolCall a
            \<and> turnsOf tr' = turnsOf tr + 1)
       \<or> (\<exists>a' tr'. chatTurn W a tr = (Some (Inr []), a', tr') \<and> turnsOf tr' = turnsOf tr + 1
            \<and> cancelledRun W a tr')"
proof -
  obtain msg where answer: "ChatCompletion W tr (msgs a) = Inr msg" and calls: "ToolCalls msg \<noteq> []"
    using tools by blast
  let ?a1 = "a \<lparr> msgs := msgs a @ [msg] \<rparr>"
  let ?tr2 = "notifyMessage ?a1 (messageContent (Some msg)) (tr @ [CallChatCompletion (msgs a)])"
  have notify: "turnsOf ?tr2 = turnsOf tr + 1"
    by (simp add: notifyMessage_def)
  obtain cancelled rs tr3 where run: "runToolCalls W ?a1 (ToolCalls msg) [] ?tr2 = (cancelled, rs, tr3)"
    by (cases "runToolCalls W ?a1 (ToolCalls msg) [] ?tr2")
  have count: "turnsOf tr3 = turnsOf tr + 1"
    using runToolCalls_turns [of W ?a1 "ToolCalls msg" "[]" ?tr2] run notify by simp
  show ?thesis
  proof (cases cancelled)
    case False
    then have "chatTurn W a tr = (None, ?a1 \<lparr> msgs := msgs ?a1 @ rs \<rparr>, tr3)"
      using calls run by (simp add: chatTurn_def answer Let_def)
    then show ?thesis using count by simp
  next
    case True
    then have turn: "chatTurn W a tr
        = (Some (Inr []), ?a1 \<lparr> msgs := take (length (msgs ?a1) - 1) (msgs ?a1) \<rparr>, tr3)"
      using calls run by (simp add: chatTurn_def answer Let_def)
    from True run have "fst (runToolCalls W ?a1 (ToolCalls msg) [] ?tr2)" by simp
    from runToolCalls_cancelled [OF this] run obtain h tc tr' where
      "OnToolCall ?a1 = Some h" "tc \<in> set (ToolCalls msg)" "declinedLast W h tc tr' tr3"
      by auto
    then have "cancelledRun W a tr3"
      using answer by (simp del: ex_simps) blast
    with turn count show ?thesis by blast
  qed
qed

lemma chatLoop_outcome:
  assumes tools: "\<forall>tr ms. \<exists>msg. ChatCompletion W tr ms = Inr msg \<and> ToolCalls msg \<noteq> []"
  shows "turns \<le> maxChatTurns \<Longrightarrow> n = maxChatTurns - turns \<Longrightarrow>
         (fst (chatLoop W turns a tr) = Inl ErrMaxTurnsExceeded
          \<and> turnsOf (snd (snd (chatLoop W turns a tr))) = turnsOf tr + (maxChatTurns - turns))
         \<or> (fst (chatLoop W turns a tr) = Inr []
            \<and> turnsOf (snd (snd (chatLoop W turns a tr))) \<le> turnsOf tr + (maxChatTurns - turns)
            \<and> cancelledRun W a (snd (snd (chatLoop W turns a tr))))"
proof (induction n arbitrary: turns a tr)
  case 0
  then have "turns \<ge> maxChatTurns" by simp
  then show ?case by (simp add: chatLoop.simps [of W turns a tr])
next
  case (Suc n)
  then have lt: "\<not> turns \<ge> maxChatTurns" by simp
  from chatTurn_outcome [OF tools, of a tr] consider
      (go) a' tr' where "chatTurn W a tr = (None, a', tr')" "OnToolCall a' = OnToolCall a"
        "turnsOf tr' = turnsOf tr + 1"
    | (stop) a' tr' where "chatTurn W a tr = (Some (Inr []), a', tr')"
        "turnsOf tr' = turnsOf tr + 1" "cancelledRun W a tr'"
    by blast
  then show ?case
  proof cases
    case go
    have step: "chatLoop W turns a tr = chatLoop W (turns + 1) a' tr'"
      using lt by (simp add: go(1) chatLoop.simps [of W turns a tr])
    have "(fst (chatLoop W (turns + 1) a' tr') = Inl ErrMaxTurnsExceeded
          \<and> turnsOf (snd (snd (chatLoop W (turns + 1) a' tr'))) = turnsOf tr' + (maxChatTurns - (turns + 1)))
         \<or> (fst (chatLoop W (turns + 1) a' tr') = Inr []
            \<and> turnsOf (snd (snd (chatLoop W (turns + 1) a' tr'))) \<le> turnsOf tr' + (maxChatTurns - (turns + 1))
            \<and> cancelledRun W a' (snd (snd (chatLoop W (turns + 1) a' tr'))))"
      using Suc.prems by (intro Suc.IH) auto
    moreover have "turnsOf tr' + (maxChatTurns - (turns + 1)) = turnsOf tr + (maxChatTurns - turns)"
      using lt go(3) by simp
    ultimately show ?thesis
      unfolding step go(2) by simp
  next
    case stop
    have "chatLoop W turns a tr = (Inr [], a', tr')"
      using lt by (simp add: stop(1) chatLoop.simps [of W turns a tr])
    moreover have "turnsOf tr' \<le> turnsOf tr + (maxChatTurns - turns)"
      using lt stop(2) by simp
    ultimately show ?thesis
      using stop(3) by simp
  qed
qed

lemma preTaskTurn_outcome:
  assumes tools: "\<forall>tr ms. \<exists>msg. ChatCompletion W tr ms = Inr msg \<and> ToolCalls msg \<noteq> []"
  shows "(\<exists>ms' tr'. preTaskTurn W a task taskMsgs tr = (Continue, ms', tr')
            \<and> turnsOf tr' = turnsOf tr + 1)
       \<or> (\<exists>ms' tr'. preTaskTurn W a task taskMsgs tr = (Return ErrToolCancelled, ms', tr')
            \<and> turnsOf tr' = turnsOf tr + 1
            \<and> cancelledRun W a (beforeTaskEnd a tr'))"
proof -
  obtain msg where answer: "ChatCompletion W tr taskMsgs = Inr msg" and calls: "ToolCalls msg \<noteq> []"
    using tools by blast
  let ?tr2 = "notifyMessage a (messageContent (Some msg)) (tr @ [CallChatCompletion taskMsgs])"
  have notify: "turnsOf ?tr2 = turnsOf tr + 1"
    by (simp add: notifyMessage_def)
  obtain cancelled rs tr3 where run: "runToolCalls W a (ToolCalls msg) [] ?tr2 = (cancelled, rs, tr3)"
    by (cases "runToolCalls W a (ToolCalls msg) [] ?tr2")
  have count: "turnsOf tr3 = turnsOf tr + 1"
    using runToolCalls_turns [of W a "ToolCalls msg" "[]" ?tr2] run notify by simp
  show ?thesis
  proof (cases cancelled)
    case False
    then have "preTaskTurn W a task taskMsgs tr = (Continue, (taskMsgs @ [msg]) @ rs, tr3)"
      using calls run by (simp add: preTaskTurn_def answer Let_def)
    then show ?thesis using count by simp
  next
    case True
    let ?tr4 = "if OnPreTaskEnd a then tr3 @ [CallOnPreTaskEnd (TaskName task)] else tr3"
    have turn: "preTaskTurn W a task taskMsgs tr
        = (Return ErrToolCancelled, take (length (taskMsgs @ [msg]) - 1) (taskMsgs @ [msg]), ?tr4)"
      using True calls run by (simp add: preTaskTurn_def answer Let_def)
    from True run have "fst (runToolCalls W a (ToolCalls msg) [] ?tr2)" by simp
    from runToolCalls_cancelled [OF this] run obtain h tc tr' where
      "OnToolCall a = Some h" "tc \<in> set (ToolCalls msg)" "declinedLast W h tc tr' tr3"
      by auto
    then have "cancelledRun W a tr3"
      using answer by (simp del: ex_simps) blast
    moreover have "beforeTaskEnd a ?tr4 = tr3"
      by (simp add: beforeTaskEnd_def)
    moreover have "turnsOf ?tr4 = turnsOf tr + 1"
      using count by simp
    ultimately show ?thesis
      using turn by (simp del: ex_simps)
  qed
qed

lemma preTaskLoop_outcome:
  assumes tools: "\<forall>tr ms. \<exists>msg. ChatCompletion W tr ms = Inr msg \<and> ToolCalls msg \<noteq> []"
  shows "turns \<le> maxPreTaskTurns \<Longrightarrow> n = maxPreTaskTurns - turns \<Longrightarrow>
         (fst (preTaskLoop W a task turns taskMsgs tr)
            = Some (Wrapped (''pretask '' @ TaskName task) ErrMaxTurnsExceeded)
          \<and> turnsOf (snd (preTaskLoop W a task turns taskMsgs tr))
            = turnsOf tr + (maxPreTaskTurns - turns))
         \<or> (fst (preTaskLoop W a task turns taskMsgs tr) = Some ErrToolCancelled
            \<and> turnsOf (snd (preTaskLoop W a task turns taskMsgs tr))
              \<le> turnsOf tr + (maxPreTaskTurns - turns)
            \<and> cancelledRun W a
                (beforeTaskEnd a (snd (preTaskLoop W a task turns taskMsgs tr))))"
proof (induction n arbitrary: turns taskMsgs tr)
  case 0
  then have "turns \<ge> maxPreTaskTurns" by simp
  then show ?case by (simp add: preTaskLoop.simps [of W a task turns taskMsgs tr])
next
  case (Suc n)
  then have lt: "\<not> turns \<ge> maxPreTaskTurns" by simp
  from preTaskTurn_outcome [OF tools, of a task taskMsgs tr] consider
      (go) ms' tr' where "preTaskTurn W a task taskMsgs tr = (Continue, ms', tr')"
        "turnsOf tr' = turnsOf tr + 1"
    | (stop) ms' tr' where "preTaskTurn W a task taskMsgs tr = (Return ErrToolCancelled, ms', tr')"
        "turnsOf tr' = turnsOf tr + 1"
        "cancelledRun W a (beforeTaskEnd a tr')"
    by blast
  then show ?case
  proof cases
    case go
    have step: "preTaskLoop W a task turns taskMsgs tr = preTaskLoop W a task (turns + 1) ms' tr'"
      using lt by (simp add: go(1) preTaskLoop.simps [of W a task turns taskMsgs tr])
    have "(fst (preTaskLoop W a task (turns + 1) ms' tr')
            = Some (Wrapped (''pretask '' @ TaskName task) ErrMaxTurnsExceeded)
          \<and> turnsOf (snd (preTaskLoop W a task (turns + 1) ms' tr'))
            = turnsOf tr' + (maxPreTaskTurns - (turns + 1)))
         \<or> (fst (preTaskLoop W a task (turns + 1) ms' tr') = Some ErrToolCancelled
            \<and> turnsOf (snd (preTaskLoop W a task (turns + 1) ms' tr'))
              \<le> turnsOf tr' + (maxPreTaskTurns - (turns + 1))
            \<and> cancelledRun W a
                (beforeTaskEnd a (snd (preTaskLoop W a task (turns + 1) ms' tr'))))"
      using Suc.prems by (intro Suc.IH) auto
    moreover have "turnsOf tr' + (maxPreTaskTurns - (turns + 1)) = turnsOf tr + (maxPreTaskTurns - turns)"
      using lt go(2) by simp
    ultimately show ?thesis
      unfolding step by simp
  next
    case stop
    have "preTaskLoop W a task turns taskMsgs tr = (Some ErrToolCancelled, tr')"
      using lt by (simp add: stop(1) preTaskLoop.simps [of W a task turns taskMsgs tr])
    moreover have "turnsOf tr' \<le> turnsOf tr + (maxPreTaskTurns - turns)"
      using lt stop(2) by simp
    ultimately show ?thesis
      using stop(3) by simp
  qed
qed

lemma runTasks_outcome:
  assumes tools: "\<forall>tr ms. \<exists>msg. ChatCompletion W tr ms = Inr msg \<and> ToolCalls msg \<noteq> []"
  shows "(fst (runTasks W a (task # rest) tr)
            = Some (Wrapped (''pretask '' @ TaskName task) ErrMaxTurnsExceeded)
          \<and> turnsOf (snd (runTasks W a (task # rest) tr)) = turnsOf tr + maxPreTaskTurns)
         \<or> (fst (runTasks W a (task # rest) tr) = Some ErrToolCancelled
            \<and> turnsOf (snd (runTasks W a (task # rest) tr)) \<le> turnsOf tr + maxPreTaskTurns
            \<and> cancelledRun W a
                (beforeTaskEnd a (snd (runTasks W a (task # rest) tr))))"
proof -
  let ?tr0 = "if OnPreTaskStart a then tr @ [CallOnPreTaskStart (TaskName task)] else tr"
  let ?ms = "[\<lparr> Role = ''system'', Content = AString (SystemPrompt task),
                 ToolCalls = [], ToolCallID = [] \<rparr>,
              \<lparr> Role = ''user'',
                 Content = AString (if Input task = [] then ''Begin'' else Input task),
                 ToolCalls = [], ToolCallID = [] \<rparr>]"
  obtain e tr1 where loop: "preTaskLoop W a task 0 ?ms ?tr0 = (e, tr1)"
    by (cases "preTaskLoop W a task 0 ?ms ?tr0")
  have start: "turnsOf ?tr0 = turnsOf tr" by simp
  from preTaskLoop_outcome [OF tools le0 refl, where a = a and task = task
      and taskMsgs = ?ms and tr = ?tr0]
  have out: "(e = Some (Wrapped (''pretask '' @ TaskName task) ErrMaxTurnsExceeded)
          \<and> turnsOf tr1 = turnsOf tr + maxPreTaskTurns)
        \<or> (e = Some ErrToolCancelled \<and> turnsOf tr1 \<le> turnsOf tr + maxPreTaskTurns
            \<and> cancelledRun W a (beforeTaskEnd a tr1))"
    unfolding loop fst_conv snd_conv start diff_zero .
  then obtain err where e: "e = Some err" by blast
  have run: "runTasks W a (task # rest) tr = (e, tr1)"
    using loop by (simp add: Let_def e)
  from out show ?thesis
    unfolding run fst_conv snd_conv .
qed

text \<open>
  C7. The model answers every request with a message that carries tool calls. Then a
  conversation ends in one of two ways only. Either one of those tool calls is cancelled:
  the approval hook declines it, that call of the hook is the last event, and \<open>Chat\<close> returns
  early. Or none is cancelled, and with no pre-task pending \<open>Chat\<close> ends with
  \<open>ErrMaxTurnsExceeded\<close> after exactly \<open>maxChatTurns\<close> model round trips, one per turn: not one
  fewer, not one more. With a pre-task pending, the first task meets the same model:
  unless a call is cancelled, \<open>Chat\<close> ends with \<open>ErrMaxTurnsExceeded\<close> wrapped with the task's
  name, after exactly \<open>maxPreTaskTurns\<close> round trips.
\<close>

theorem chat_turn_cap:
  assumes tools: "\<forall>tr ms. \<exists>msg. ChatCompletion W tr ms = Inr msg \<and> ToolCalls msg \<noteq> []"
  shows "(case (if preTasksDone a then [] else PreTasks (config a)) of
            [] \<Rightarrow>
              (fst (Chat W a input tr) = Inl ErrMaxTurnsExceeded
               \<and> turnsOf (snd (snd (Chat W a input tr))) = turnsOf tr + maxChatTurns)
              \<or> (fst (Chat W a input tr) = Inr []
                  \<and> turnsOf (snd (snd (Chat W a input tr))) \<le> turnsOf tr + maxChatTurns
                  \<and> (\<exists>h tr0 ms msg tc tr'.
                        OnToolCall a = Some h \<and> ChatCompletion W tr0 ms = Inr msg
                        \<and> tc \<in> set (ToolCalls msg)
                        \<and> declinedLast W h tc tr' (snd (snd (Chat W a input tr)))))
          | task # rest \<Rightarrow>
              (fst (Chat W a input tr)
                 = Inl (Wrapped (''pretask '' @ TaskName task) ErrMaxTurnsExceeded)
               \<and> turnsOf (snd (snd (Chat W a input tr))) = turnsOf tr + maxPreTaskTurns)
              \<or> (fst (Chat W a input tr) = Inl ErrToolCancelled
                  \<and> turnsOf (snd (snd (Chat W a input tr))) \<le> turnsOf tr + maxPreTaskTurns
                  \<and> (\<exists>h tr0 ms msg tc tr'.
                        OnToolCall a = Some h \<and> ChatCompletion W tr0 ms = Inr msg
                        \<and> tc \<in> set (ToolCalls msg)
                        \<and> declinedLast W h tc tr'
                            (beforeTaskEnd a (snd (snd (Chat W a input tr)))))))"
proof (cases "if preTasksDone a then [] else PreTasks (config a)")
  case Nil
  let ?a0 = "a \<lparr> msgs := msgs a @ [\<lparr> Role = ''user'', Content = AString input,
                                         ToolCalls = [], ToolCallID = [] \<rparr>] \<rparr>"
  have start: "Chat W a input tr = chatLoop W 0 ?a0 tr"
    using Nil by (auto simp add: Chat_def split: if_splits)
  have hook: "OnToolCall ?a0 = OnToolCall a" by simp
  show ?thesis
    using chatLoop_outcome [OF tools le0 refl, where a = ?a0 and tr = tr]
    unfolding start hook Nil list.case diff_zero .
next
  case (Cons task rest)
  then have pending: "\<not> preTasksDone a" "PreTasks (config a) = task # rest"
    by (auto split: if_splits)
  obtain e tr' where run: "runTasks W a (task # rest) tr = (e, tr')"
    by (cases "runTasks W a (task # rest) tr")
  from runTasks_outcome [OF tools, of a task rest tr]
  have out: "(e = Some (Wrapped (''pretask '' @ TaskName task) ErrMaxTurnsExceeded)
          \<and> turnsOf tr' = turnsOf tr + maxPreTaskTurns)
        \<or> (e = Some ErrToolCancelled \<and> turnsOf tr' \<le> turnsOf tr + maxPreTaskTurns
            \<and> cancelledRun W a (beforeTaskEnd a tr'))"
    unfolding run fst_conv snd_conv .
  then obtain err where e: "e = Some err" by blast
  have chat: "Chat W a input tr = (Inl err, a, tr')"
    by (simp add: Chat_def pending runPreTasks_def run e del: runTasks.simps)
  from out have "(Inl err = Inl (Wrapped (''pretask '' @ TaskName task) ErrMaxTurnsExceeded)
          \<and> turnsOf tr' = turnsOf tr + maxPreTaskTurns)
        \<or> (Inl err = Inl ErrToolCancelled \<and> turnsOf tr' \<le> turnsOf tr + maxPreTaskTurns
            \<and> cancelledRun W a (beforeTaskEnd a tr'))"
    unfolding e by (simp only: option.inject sum.inject)
  then show ?thesis
    unfolding Cons list.case chat fst_conv snd_conv .
qed

theorem chat_turn_cap_witness:
  "fst (Chat fileWorld guardedAgent ''next'' []) = Inl ErrMaxTurnsExceeded
   \<and> turnsOf (snd (snd (Chat fileWorld guardedAgent ''next'' []))) = 10
   \<and> fst (Chat toolWorld exploringAgent ''go'' [])
     = Inl (Wrapped ''pretask exploring'' ErrMaxTurnsExceeded)
   \<and> turnsOf (snd (snd (Chat toolWorld exploringAgent ''go'' []))) = 10"
proof -
  have tools: "\<forall>tr ms. \<exists>msg. ChatCompletion toolWorld tr ms = Inr msg \<and> ToolCalls msg \<noteq> []"
    by (simp add: toolWorld_def toolMessage_def)
  have files: "\<forall>tr ms. \<exists>msg. ChatCompletion fileWorld tr ms = Inr msg \<and> ToolCalls msg \<noteq> []"
    by (simp add: fileWorld_def fileMessage_def)
  have selective: "OnToolCall guardedAgent = Some (\<lambda>tr name args. name \<noteq> ''run_shell'')"
    "preTasksDone guardedAgent = False" "PreTasks (config guardedAgent) = []"
    by (simp_all add: guardedAgent_def plainAgent_def)
  have asked: "ChatCompletion fileWorld tr0 ms = Inr msg \<Longrightarrow> tc \<in> set (ToolCalls msg)
      \<Longrightarrow> Name (Function tc) = ''write_file''" for tr0 ms msg tc
    by (auto simp add: fileWorld_def fileMessage_def)
  have nohook: "OnToolCall exploringAgent = None" "preTasksDone exploringAgent = False"
    "PreTasks (config exploringAgent) = [exploringTask]" "TaskName exploringTask = ''exploring''"
    by (simp_all add: exploringAgent_def plainAgent_def exploringTask_def)
  show ?thesis
    using chat_turn_cap [OF files, of guardedAgent "''next''" "[]"]
      chat_turn_cap [OF tools, of exploringAgent "''go''" "[]"]
    by (auto simp add: selective nohook declinedLast_def Let_def maxChatTurns_def
        maxPreTaskTurns_def dest: asked)
qed


section \<open>The pre-task runners and the done marker\<close>

lemma preTaskLoop_marker_goes_on:
  assumes "ChatCompletion W tr taskMsgs = Inr msg"
      and "ToolCalls msg = []"
      and "Content msg = AString content"
      and "\<not> Contains content (DoneMarker task)"
  shows "preTaskLoop_marker W a task taskMsgs tr =
         preTaskLoop_marker W a task (taskMsgs @ [msg])
           (if OnMessage a \<and> content \<noteq> []
            then tr @ [CallChatCompletion taskMsgs, CallOnMessage content]
            else tr @ [CallChatCompletion taskMsgs])"
  by (subst preTaskLoop_marker.simps) (simp add: assms Let_def)

lemma preTaskLoop_marker_ends:
  assumes "ChatCompletion W tr taskMsgs = Inr msg"
      and "ToolCalls msg = []"
      and "Content msg = AString content"
      and "Contains content (DoneMarker task)"
  shows "preTaskLoop_marker W a task taskMsgs tr =
         Some (None, if OnMessage a \<and> content \<noteq> []
                     then tr @ [CallChatCompletion taskMsgs, CallOnMessage content]
                     else tr @ [CallChatCompletion taskMsgs])"
  by (subst preTaskLoop_marker.simps) (simp add: assms Let_def)

lemma markerWorld_answers:
  "ChatCompletion markerWorld [] ms = Inr (textMessage ''still exploring'')"
  "ChatCompletion markerWorld [CallChatCompletion ms'] ms = Inr (textMessage ''{{DONE}}'')"
  by (simp_all add: markerWorld_def)

lemma textMessage_fields:
  "ToolCalls (textMessage s) = []"
  "Content (textMessage s) = AString s"
  by (simp_all add: textMessage_def)

lemma exploring_marker:
  "\<not> Contains ''still exploring'' (DoneMarker exploringTask)"
  "Contains ''{{DONE}}'' (DoneMarker exploringTask)"
  by (simp_all add: exploringTask_def)

lemma exploring_facts:
  "TaskName exploringTask = ''exploring''"
  "OnMessage exploringAgent = False"
  "OnPreTaskStart exploringAgent = False"
  "OnPreTaskEnd exploringAgent = False"
  "PreTasks (config exploringAgent) = [exploringTask]"
  by (simp_all add: exploringTask_def exploringAgent_def plainAgent_def)

lemma exploring_start:
  "[\<lparr> Role = ''system'', Content = AString (SystemPrompt exploringTask),
        ToolCalls = [], ToolCallID = [] \<rparr>,
     \<lparr> Role = ''user'', Content = AString (if Input exploringTask = [] then ''Begin'' else Input exploringTask),
        ToolCalls = [], ToolCallID = [] \<rparr>] = exploringHistory"
  by (simp add: exploringTask_def exploringHistory_def)

text \<open>
  C6, on the code. The task's marker is \<open>{{DONE}}\<close>; the model's first answer is a text
  without it and without tool calls, its second answer would be the marker. The runner with
  the turn cap (\<open>runPreTasks\<close>) leaves the task's loop at the first answer and reports
  success after one turn. The runner of the revision with the shell subagent
  (\<open>runPreTasks_marker\<close>) goes on and completes after exactly two turns.
\<close>

theorem runPreTasks_ignores_marker:
  "\<not> Contains ''still exploring'' (DoneMarker exploringTask)
   \<and> runPreTasks markerWorld exploringAgent [] = (None, [CallChatCompletion exploringHistory])
   \<and> turnsOf (snd (runPreTasks markerWorld exploringAgent [])) = 1
   \<and> runPreTasks_marker markerWorld exploringAgent []
       = Some (None, [CallChatCompletion exploringHistory,
                      CallChatCompletion (exploringHistory @ [textMessage ''still exploring''])])"
proof -
  have turn: "preTaskTurn markerWorld exploringAgent exploringTask exploringHistory []
      = (Break, exploringHistory @ [textMessage ''still exploring''],
         [CallChatCompletion exploringHistory])"
    by (simp add: preTaskTurn_def markerWorld_answers Let_def textMessage_def messageContent_def
        notifyMessage_def exploring_facts)
  have loop: "preTaskLoop markerWorld exploringAgent exploringTask 0 exploringHistory []
      = (None, [CallChatCompletion exploringHistory])"
    by (simp add: preTaskLoop.simps [of _ _ _ 0] turn maxPreTaskTurns_def)
  have run: "runPreTasks markerWorld exploringAgent [] = (None, [CallChatCompletion exploringHistory])"
    by (simp add: runPreTasks_def exploring_facts Let_def exploring_start loop)
  have first: "preTaskLoop_marker markerWorld exploringAgent exploringTask exploringHistory []
      = preTaskLoop_marker markerWorld exploringAgent exploringTask
          (exploringHistory @ [textMessage ''still exploring''])
          [CallChatCompletion exploringHistory]"
    using preTaskLoop_marker_goes_on [OF markerWorld_answers(1) [of exploringHistory]
        textMessage_fields exploring_marker(1), where a = exploringAgent]
    by (simp only: exploring_facts simp_thms if_False append_Nil)
  have second: "preTaskLoop_marker markerWorld exploringAgent exploringTask
          (exploringHistory @ [textMessage ''still exploring''])
          [CallChatCompletion exploringHistory]
      = Some (None, [CallChatCompletion exploringHistory,
                     CallChatCompletion (exploringHistory @ [textMessage ''still exploring''])])"
    using preTaskLoop_marker_ends [OF markerWorld_answers(2) [of exploringHistory
          "exploringHistory @ [textMessage ''still exploring'']"]
        textMessage_fields exploring_marker(2), where a = exploringAgent]
    by (simp only: exploring_facts simp_thms if_False append_Cons append_Nil)
  have run_marker: "runPreTasks_marker markerWorld exploringAgent []
       = Some (None, [CallChatCompletion exploringHistory,
                      CallChatCompletion (exploringHistory @ [textMessage ''still exploring''])])"
    by (simp add: runPreTasks_marker_def exploring_facts Let_def exploring_start first second)
  show ?thesis
    using run run_marker exploring_marker(1) by simp
qed

end
